theory Spec2Isabelle
  imports Main "HOL-Library.AList" "HOL-Library.Word"
begin

section \<open>Values of the wire format\<close>

text \<open>
  Everything that travels over the connection is JSON. A payload that was parsed is a
  JavaScript value; reading a member that is absent yields \<open>undefined\<close>, so the
  embedding has that value too. The numbers of the model are the integers of the signed
  54-bit range, each of which a double holds exactly and prints in plain decimal digits;
  fractions, larger magnitudes, NaN and the infinities are outside the model.
\<close>

datatype jsvalue =
    JUndefined
  | JNull
  | JBool bool
  | JNum "54 word"
  | JStr string
  | JArr "jsvalue list"
  | JObj "(string \<times> jsvalue) list"

text \<open>JavaScript truthiness, as used by \<open>!x\<close> and \<open>a || b\<close>.\<close>

fun truthy :: "jsvalue \<Rightarrow> bool" where
  "truthy JUndefined = False"
| "truthy JNull = False"
| "truthy (JBool b) = b"
| "truthy (JNum n) = (n \<noteq> 0)"
| "truthy (JStr s) = (s \<noteq> [])"
| "truthy (JArr xs) = True"
| "truthy (JObj kvs) = True"

definition js_or :: "jsvalue \<Rightarrow> jsvalue \<Rightarrow> jsvalue" where
  "js_or a b = (if truthy a then a else b)"

text \<open>Member access \<open>v.k\<close>: a member of an object, \<open>undefined\<close> otherwise.\<close>

fun obj_get :: "jsvalue \<Rightarrow> string \<Rightarrow> jsvalue" where
  "obj_get (JObj kvs) k = (case map_of kvs k of None \<Rightarrow> JUndefined | Some v \<Rightarrow> v)"
| "obj_get v k = JUndefined"

text \<open>Decimal representation of numbers, for template strings.\<close>

fun show_nat :: "nat \<Rightarrow> string" where
  "show_nat n =
     (if n < 10 then [''0123456789'' ! n]
      else show_nat (n div 10) @ [''0123456789'' ! (n mod 10)])"

declare show_nat.simps [simp del]

definition show_int :: "int \<Rightarrow> string" where
  "show_int i = (if i < 0 then CHR ''-'' # show_nat (nat (- i)) else show_nat (nat i))"

fun join :: "string \<Rightarrow> string list \<Rightarrow> string" where
  "join sep [] = []"
| "join sep [x] = x"
| "join sep (x # y # ys) = x @ sep @ join sep (y # ys)"

text \<open>
  String conversion of a value inside a template string \<open>`${v}`\<close>. A parsed object
  prints as \<open>[object Object]\<close> through the method it inherits; when it has a member
  of its own named \<open>toString\<close> (never a function, in parsed JSON) the conversion
  throws a \<open>TypeError\<close>, which is the result \<open>None\<close>. An array joins the
  conversions of its elements.
\<close>

fun toStr :: "jsvalue \<Rightarrow> string option" where
  "toStr JUndefined = Some ''undefined''"
| "toStr JNull = Some ''null''"
| "toStr (JBool b) = Some (if b then ''true'' else ''false'')"
| "toStr (JNum n) = Some (show_int (sint n))"
| "toStr (JStr s) = Some s"
| "toStr (JArr xs) =
     map_option (join '','')
       (those (map (\<lambda>x. if x = JUndefined \<or> x = JNull then Some [] else toStr x) xs))"
| "toStr (JObj kvs) =
     (if map_of kvs ''toString'' = None then Some ''[object Object]'' else None)"

section \<open>The process-wide registries and the connection\<close>

type_synonym validator = "jsvalue \<Rightarrow> jsvalue"

text \<open>
  The second argument of \<open>waitForEvent\<close> is a closure. The closures the program passes
  are of three shapes, one constructor each:
  \<^item> \<open>CbDestroy isStandalone fieldId sessionId\<close>: send \<open>destroy\<close> when standalone;
  \<^item> \<open>CbUnsubscribe key\<close>: \<open>eventEmitter.removeAllListeners(key)\<close>;
  \<^item> \<open>CbGroupComplete sessionId\<close>: send \<open>groupComplete\<close>.
\<close>

datatype callback =
    CbDestroy bool string string
  | CbUnsubscribe string
  | CbGroupComplete string

text \<open>
  The listeners the program registers on the event emitter:
  \<^item> \<open>Waiter cb p k\<close> is the one-shot listener of \<open>waitForEvent\<close>: it runs the
    callback \<open>cb\<close> and resolves the promise; \<open>p\<close> names the promise of the awaiting
    operation and \<open>k\<close> is what that operation does with the value before returning it
    (the identity, or \<open>pick\<close> for an address field);
  \<^item> the persistent patch listeners of \<open>autocomplete\<close>, \<open>address\<close> and \<open>table\<close>.
    The caller's \<open>query\<close> is a parameter.
\<close>

datatype listener =
    Waiter callback nat "jsvalue \<Rightarrow> jsvalue"
  | PatchAutocomplete "jsvalue \<Rightarrow> jsvalue" string string
  | PatchAddress string string string
  | PatchTable "jsvalue \<Rightarrow> jsvalue" jsvalue string string

text \<open>
  The calls made on the connection, the validator map and the event emitter, in order.
  The message handler and the patch listeners are asynchronous functions that nobody
  awaits: an exception thrown in one of them ends that function there, keeps the effects
  it has made, and is recorded as \<open>Rejected\<close>.
\<close>

datatype error = TypeError

datatype effect =
    Send jsvalue
  | Rejected error
  | SetValidator string
  | DeleteValidator jsvalue
  | On string
  | Once string
  | Emit string jsvalue
  | RemoveAll string
  | Resolve nat jsvalue

record world =
  fieldValidators :: "string \<rightharpoonup> validator"
  listeners :: "string \<Rightarrow> listener list"
  watchers :: "(string \<times> nat list) list"
  settled :: "nat \<rightharpoonup> jsvalue"
  nanoid_src :: "nat \<Rightarrow> string"
  drawn :: nat
  places :: "jsvalue \<Rightarrow> string \<Rightarrow> jsvalue"
  page_offset :: "jsvalue \<Rightarrow> jsvalue \<Rightarrow> jsvalue option"
  promises :: nat
  trace :: "effect list"

text \<open>
  \<open>fieldValidators\<close> is the validator map, \<open>listeners\<close> the emitter's table,
  \<open>watchers\<close> the pending \<open>Promise.all\<close> of every running group (event name and member
  promises, in builder order), \<open>settled\<close> the operations that have returned and their
  results. \<open>nanoid\<close> is random in the program: its successive results are the values of
  \<open>nanoid_src\<close>, of which \<open>drawn\<close> have been used. \<open>promises\<close> counts the promises
  created so far. \<open>places input apiKey\<close> is what the remote address lookup answers
  (the predictions, each mapped to a label and a value). \<open>page_offset page pageSize\<close>
  is what JavaScript computes for \<open>(page - 1) * pageSize\<close>, in floating point and with
  its conversions of operands that are not numbers; \<open>None\<close> when the conversion throws.
\<close>

definition log :: "effect \<Rightarrow> world \<Rightarrow> world" where
  "log e w = w\<lparr>trace := trace w @ [e]\<rparr>"

fun sent_of :: "effect list \<Rightarrow> jsvalue list" where
  "sent_of [] = []"
| "sent_of (Send m # es) = m # sent_of es"
| "sent_of (e # es) = sent_of es"

definition sent :: "world \<Rightarrow> jsvalue list" where
  "sent w = sent_of (trace w)"

definition ws_send :: "jsvalue \<Rightarrow> world \<Rightarrow> world" where
  "ws_send m w = log (Send m) w"

definition nanoid :: "world \<Rightarrow> string \<times> world" where
  "nanoid w = (nanoid_src w (drawn w), w\<lparr>drawn := Suc (drawn w)\<rparr>)"

definition fieldValidators_get :: "jsvalue \<Rightarrow> world \<Rightarrow> validator option" where
  "fieldValidators_get k w = (case k of JStr s \<Rightarrow> fieldValidators w s | _ \<Rightarrow> None)"

definition fieldValidators_delete :: "jsvalue \<Rightarrow> world \<Rightarrow> world" where
  "fieldValidators_delete k w =
     log (DeleteValidator k)
       (case k of JStr s \<Rightarrow> w\<lparr>fieldValidators := (fieldValidators w)(s := None)\<rparr> | _ \<Rightarrow> w)"

definition fieldValidators_set :: "string \<Rightarrow> validator \<Rightarrow> world \<Rightarrow> world" where
  "fieldValidators_set fid v w =
     log (SetValidator fid) (w\<lparr>fieldValidators := (fieldValidators w)(fid \<mapsto> v)\<rparr>)"

subsection \<open>The event emitter\<close>

definition emitter_on :: "string \<Rightarrow> listener \<Rightarrow> world \<Rightarrow> world" where
  "emitter_on key l w = log (On key) (w\<lparr>listeners := (listeners w)(key := listeners w key @ [l])\<rparr>)"

definition emitter_once :: "string \<Rightarrow> listener \<Rightarrow> world \<Rightarrow> world" where
  "emitter_once key l w = log (Once key) (w\<lparr>listeners := (listeners w)(key := listeners w key @ [l])\<rparr>)"

text \<open>
  A one-shot listener removes itself, by identity, when it is called. Every call of
  \<open>waitForEvent\<close> creates one promise and one listener, so the promise identifies it.
\<close>

fun remove_waiter :: "nat \<Rightarrow> listener list \<Rightarrow> listener list" where
  "remove_waiter p [] = []"
| "remove_waiter p (Waiter cb q k # ls) =
     (if p = q then ls else Waiter cb q k # remove_waiter p ls)"
| "remove_waiter p (l # ls) = l # remove_waiter p ls"

definition removeListener :: "string \<Rightarrow> nat \<Rightarrow> world \<Rightarrow> world" where
  "removeListener key p w = w\<lparr>listeners := (listeners w)(key := remove_waiter p (listeners w key))\<rparr>"

definition removeAllListeners :: "string \<Rightarrow> world \<Rightarrow> world" where
  "removeAllListeners key w = log (RemoveAll key) (w\<lparr>listeners := (listeners w)(key := [])\<rparr>)"

text \<open>Resolving a promise a second time has no effect.\<close>

definition resolve :: "nat \<Rightarrow> jsvalue \<Rightarrow> world \<Rightarrow> world" where
  "resolve p v w = (case settled w p of None \<Rightarrow> w\<lparr>settled := (settled w)(p \<mapsto> v)\<rparr> | Some _ \<Rightarrow> w)"

definition msg_destroy :: "string \<Rightarrow> string \<Rightarrow> jsvalue" where
  "msg_destroy fieldId sessionId =
     JObj [(''action'', JStr ''destroy''), (''fieldId'', JStr fieldId), (''sessionId'', JStr sessionId)]"

definition msg_groupComplete :: "string \<Rightarrow> jsvalue" where
  "msg_groupComplete sessionId =
     JObj [(''action'', JStr ''groupComplete''), (''sessionId'', JStr sessionId)]"

definition msg_patch :: "jsvalue \<Rightarrow> string \<Rightarrow> string \<Rightarrow> jsvalue" where
  "msg_patch patchedState fieldId sessionId =
     JObj [(''patchedState'', patchedState), (''action'', JStr ''patch''),
           (''fieldId'', JStr fieldId), (''sessionId'', JStr sessionId)]"

definition msg_warn :: "jsvalue \<Rightarrow> jsvalue \<Rightarrow> jsvalue \<Rightarrow> jsvalue" where
  "msg_warn validationResult fieldId sessionId =
     JObj [(''validationResult'', validationResult), (''action'', JStr ''warn''),
           (''fieldId'', fieldId), (''sessionId'', sessionId)]"

definition msg_updatePeers :: jsvalue where
  "msg_updatePeers = JObj [(''action'', JStr ''updatePeers'')]"

fun run_callback :: "callback \<Rightarrow> world \<Rightarrow> world" where
  "run_callback (CbDestroy isStandalone fieldId sessionId) w =
     (if isStandalone then ws_send (msg_destroy fieldId sessionId) w else w)"
| "run_callback (CbUnsubscribe key) w = removeAllListeners key w"
| "run_callback (CbGroupComplete sessionId) w = ws_send (msg_groupComplete sessionId) w"

text \<open>
  One listener receiving an event. A one-shot listener is removed before it runs. The
  address listener reports a missing API key with a \<open>warn\<close> before its \<open>patch\<close>.
  The table listener first reads \<open>data.page\<close>, which throws when the event data is
  \<open>null\<close> or \<open>undefined\<close>, computes the offset, and calls the query with the request
  \<open>{query: data.query, page: data.page, offset, pageSize}\<close>.
\<close>

fun fire :: "string \<Rightarrow> jsvalue \<Rightarrow> listener \<Rightarrow> world \<Rightarrow> world" where
  "fire key data (Waiter cb p k) w =
     resolve p (k data) (log (Resolve p data) (run_callback cb (removeListener key p w)))"
| "fire key data (PatchAutocomplete query fieldId sessionId) w =
     ws_send (msg_patch (query data) fieldId sessionId) w"
| "fire key data (PatchAddress googleMapsApiKey fieldId sessionId) w =
     ws_send (msg_patch (places w data googleMapsApiKey) fieldId sessionId)
       (if googleMapsApiKey = []
        then ws_send (msg_warn (JStr ''Missing Google Maps API key'') (JStr fieldId) (JStr sessionId)) w
        else w)"
| "fire key data (PatchTable query pageSize fieldId sessionId) w =
     (if data = JUndefined \<or> data = JNull then log (Rejected TypeError) w
      else case page_offset w (obj_get data ''page'') pageSize of
             None \<Rightarrow> log (Rejected TypeError) w
           | Some offset \<Rightarrow>
               ws_send
                 (msg_patch
                    (query (JObj [(''query'', obj_get data ''query''),
                                  (''page'', obj_get data ''page''),
                                  (''offset'', offset), (''pageSize'', pageSize)]))
                    fieldId sessionId) w)"

fun run_listeners :: "string \<Rightarrow> jsvalue \<Rightarrow> listener list \<Rightarrow> world \<Rightarrow> world" where
  "run_listeners key data [] w = w"
| "run_listeners key data (l # ls) w = run_listeners key data ls (fire key data l w)"

text \<open>\<open>emit\<close> delivers to the listeners registered when it is called, in order.\<close>

definition emit :: "string \<Rightarrow> jsvalue \<Rightarrow> world \<Rightarrow> world" where
  "emit key data w = run_listeners key data (listeners w key) (log (Emit key data) w)"

definition waitForEvent :: "string \<Rightarrow> callback \<Rightarrow> (jsvalue \<Rightarrow> jsvalue) \<Rightarrow> world \<Rightarrow> nat \<times> world" where
  "waitForEvent eventName cb k w =
     (let p = promises w
      in (p, emitter_once eventName (Waiter cb p k) (w\<lparr>promises := Suc p\<rparr>)))"

definition eventId :: "string \<Rightarrow> string \<Rightarrow> string \<Rightarrow> string" where
  "eventId sessionId fieldId type = sessionId @ '':'' @ fieldId @ '':'' @ type"

text \<open>
  The handler calls \<open>eventId\<close> with members of the message, which the template string
  converts, the session first; \<open>emit_on\<close> is \<open>eventEmitter.emit(eventId(...), data)\<close>,
  which emits nothing when building the event name throws.
\<close>

definition eventId_of :: "jsvalue \<Rightarrow> jsvalue \<Rightarrow> string \<Rightarrow> string option" where
  "eventId_of sessionId fieldId type =
     (case toStr sessionId of
        None \<Rightarrow> None
      | Some s \<Rightarrow> (case toStr fieldId of None \<Rightarrow> None | Some f \<Rightarrow> Some (eventId s f type)))"

definition emit_on :: "string option \<Rightarrow> jsvalue \<Rightarrow> world \<Rightarrow> world" where
  "emit_on name data w =
     (case name of None \<Rightarrow> log (Rejected TypeError) w | Some key \<Rightarrow> emit key data w)"


section \<open>Inbound messages\<close>


text \<open>
  The handler of inbound messages, second variant of the file (the one with groups).
  A validator is a function of the submitted value; it answers \<open>true\<close> or a reason.
\<close>

definition on_resolve :: "jsvalue \<Rightarrow> world \<Rightarrow> world" where
  "on_resolve message w =
     (let fieldId = obj_get message ''fieldId'';
          sessionId = obj_get message ''sessionId'';
          fieldValue = obj_get message ''fieldValue''
      in case fieldValidators_get fieldId w of
           None \<Rightarrow>
             emit_on (eventId_of sessionId fieldId ''resolve'') fieldValue
               (fieldValidators_delete fieldId w)
         | Some customValidator \<Rightarrow>
             (let validationResult = customValidator fieldValue;
                  w1 = ws_send (msg_warn validationResult fieldId sessionId) w
              in if validationResult = JBool True
                 then emit_on (eventId_of sessionId fieldId ''resolve'') fieldValue
                        (fieldValidators_delete fieldId w1)
                 else w1))"

definition on_message :: "jsvalue \<Rightarrow> world \<Rightarrow> world" where
  "on_message message w =
     (if \<not> truthy message then w
      else
        let action = obj_get message ''action'';
            w1 = (if action = JStr ''startSession''
                  then ws_send msg_updatePeers
                         (emit ''startSession''
                            (JObj [(''sessionId'', obj_get message ''sessionId''),
                                   (''user'', obj_get message ''user'')]) w)
                  else w);
            w2 = (if action = JStr ''patch''
                  then emit_on (eventId_of (obj_get message ''sessionId'')
                                           (obj_get message ''fieldId'') ''patch'')
                               (obj_get message ''data'') w1
                  else w1)
        in if action = JStr ''resolve'' then on_resolve message w2 else w2)"


text \<open>
  The first variant of the file names the resolve event \<open>`${fieldId}:${sessionId}`\<close>
  and sends \<open>warn\<close> in the \<open>else\<close> branch only.
\<close>

definition eventName_v1 :: "jsvalue \<Rightarrow> jsvalue \<Rightarrow> string \<Rightarrow> string option" where
  "eventName_v1 first second suffix =
     (case toStr first of
        None \<Rightarrow> None
      | Some a \<Rightarrow> (case toStr second of None \<Rightarrow> None | Some b \<Rightarrow> Some (a @ '':'' @ b @ suffix)))"

definition on_resolve_v1 :: "jsvalue \<Rightarrow> world \<Rightarrow> world" where
  "on_resolve_v1 message w =
     (let fieldId = obj_get message ''fieldId'';
          sessionId = obj_get message ''sessionId'';
          fieldValue = obj_get message ''fieldValue''
      in case fieldValidators_get fieldId w of
           None \<Rightarrow>
             emit_on (eventName_v1 fieldId sessionId []) fieldValue
               (fieldValidators_delete fieldId w)
         | Some customValidator \<Rightarrow>
             (let validationResult = customValidator fieldValue
              in if validationResult = JBool True
                 then emit_on (eventName_v1 fieldId sessionId []) fieldValue
                        (fieldValidators_delete fieldId w)
                 else ws_send (msg_warn validationResult fieldId sessionId) w))"

definition on_message_v1 :: "jsvalue \<Rightarrow> world \<Rightarrow> world" where
  "on_message_v1 message w =
     (if \<not> truthy message then w
      else
        let action = obj_get message ''action'';
            w1 = (if action = JStr ''startSession''
                  then ws_send msg_updatePeers
                         (emit ''startSession''
                            (JObj [(''sessionId'', obj_get message ''sessionId''),
                                   (''user'', obj_get message ''user'')]) w)
                  else w);
            w2 = (if action = JStr ''patch''
                  then emit_on (eventName_v1 (obj_get message ''sessionId'')
                                  (obj_get message ''fieldId'') '':patch'')
                               (obj_get message ''data'') w1
                  else w1)
        in if action = JStr ''resolve'' then on_resolve_v1 message w2 else w2)"

section \<open>Field operations\<close>

subsection \<open>Default validators\<close>

definition text_defaultCustomValidator :: validator where
  "text_defaultCustomValidator input =
     (case input of
        JStr s \<Rightarrow> if \<not> truthy input then JStr ''Required'' else JBool True
      | _ \<Rightarrow> JStr ''Expected string'')"

definition number_defaultCustomValidator :: validator where
  "number_defaultCustomValidator input =
     (case input of JNum n \<Rightarrow> JBool True | _ \<Rightarrow> JStr ''Invalid number'')"

definition currency_defaultCustomValidator :: validator where
  "currency_defaultCustomValidator input =
     (case input of
        JStr s \<Rightarrow> if \<not> truthy input then JStr ''Required'' else JBool True
      | _ \<Rightarrow> JStr ''Invalid string'')"

definition markdown_defaultValidator :: validator where
  "markdown_defaultValidator input =
     (case input of
        JStr s \<Rightarrow> if \<not> truthy input then JStr ''Required'' else JBool True
      | _ \<Rightarrow> JStr ''Expected string'')"

definition richText_defaultValidator :: validator where
  "richText_defaultValidator input =
     (case input of
        JStr s \<Rightarrow> if s = ''<p></p>'' then JStr ''Required'' else JBool True
      | _ \<Rightarrow> JStr ''Expected string'')"

definition slider_defaultValidator :: validator where
  "slider_defaultValidator input =
     (case input of JNum n \<Rightarrow> JBool True | _ \<Rightarrow> JStr ''Invalid number'')"

definition email_defaultValidator :: validator where
  "email_defaultValidator input =
     (case input of
        JStr s \<Rightarrow> js_or (JBool (CHR ''@'' \<in> set s)) (JStr ''Invalid email address'')
      | _ \<Rightarrow> JStr ''Expected string'')"

definition checkbox_defaultValidator :: validator where
  "checkbox_defaultValidator input =
     (case input of JBool b \<Rightarrow> JBool True | _ \<Rightarrow> JStr ''Expected boolean'')"

definition checkboxes_defaultValidator :: validator where
  "checkboxes_defaultValidator input =
     (case input of JArr xs \<Rightarrow> JBool True | _ \<Rightarrow> JStr ''Expected array'')"

definition radio_defaultValidator :: validator where
  "radio_defaultValidator input = (if \<not> truthy input then JStr ''Required'' else JBool True)"

definition select_defaultValidator :: validator where
  "select_defaultValidator input = (if \<not> truthy input then JStr ''Required'' else JBool True)"

text \<open>
  \<open>jsonValueValidator\<close> (a schema of the \<open>zod\<close> library) accepts strings, numbers,
  booleans, \<open>null\<close>, arrays of accepted values and records of accepted values.
  The text of the issue it reports otherwise is the library's.
\<close>

fun jsonValueValidator :: "jsvalue \<Rightarrow> bool" where
  "jsonValueValidator JUndefined = False"
| "jsonValueValidator JNull = True"
| "jsonValueValidator (JBool b) = True"
| "jsonValueValidator (JNum n) = True"
| "jsonValueValidator (JStr s) = True"
| "jsonValueValidator (JArr xs) = (\<forall>x \<in> set xs. jsonValueValidator x)"
| "jsonValueValidator (JObj kvs) = (\<forall>kv \<in> set kvs. jsonValueValidator (snd kv))"

definition autocomplete_defaultValidator :: validator where
  "autocomplete_defaultValidator input =
     (if input = JNull then JStr ''Required''
      else if jsonValueValidator input then JBool True
      else JStr ''Invalid input'')"

definition address_defaultValidator :: validator where
  "address_defaultValidator input = (if \<not> truthy input then JStr ''Required'' else JBool True)"

definition date_defaultValidator :: validator where
  "date_defaultValidator input =
     (case input of
        JStr s \<Rightarrow> if \<not> truthy input then JStr ''Required'' else JBool True
      | _ \<Rightarrow> JStr ''Expected string'')"

definition datetimeLocal_defaultValidator :: validator where
  "datetimeLocal_defaultValidator input =
     (case input of
        JStr s \<Rightarrow> if \<not> truthy input then JStr ''Required'' else JBool True
      | _ \<Rightarrow> JStr ''Expected string'')"

definition time_defaultValidator :: validator where
  "time_defaultValidator input =
     (case input of
        JStr s \<Rightarrow> if \<not> truthy input then JStr ''Required'' else JBool True
      | _ \<Rightarrow> JStr ''Expected string'')"

definition colorpicker_defaultValidator :: validator where
  "colorpicker_defaultValidator input =
     (case input of
        JStr s \<Rightarrow> if \<not> truthy input then JStr ''Required'' else JBool True
      | _ \<Rightarrow> JStr ''Expected string'')"

definition table_defaultValidator :: validator where
  "table_defaultValidator input =
     (case input of
        JArr xs \<Rightarrow> if length xs = 0 then JStr ''Required'' else JBool True
      | _ \<Rightarrow> JStr ''Expected array'')"


subsection \<open>Rendering\<close>

text \<open>
  The options object of an operation: its members other than functions, as an object,
  and the caller's validator if there is one. An absent options object is the empty one.
  Object literals with a spread are built with \<open>AList.update\<close>: a later member
  replaces an earlier one of the same name.
\<close>

record options =
  plain :: "(string \<times> jsvalue) list"
  customValidator :: "validator option"

definition or_default :: "validator option \<Rightarrow> validator \<Rightarrow> validator" where
  "or_default custom defaultValidator =
     (case custom of None \<Rightarrow> defaultValidator | Some v \<Rightarrow> v)"

text \<open>
  \<open>params.cachedFieldId || `field_${nanoid()}`\<close>; \<open>cachedFieldId\<close> is a string by
  its type.
\<close>

definition renderFieldInForm :: "string \<Rightarrow> (string \<times> jsvalue) list \<Rightarrow> world \<Rightarrow> string \<times> world" where
  "renderFieldInForm sessionId params w =
     (let (fieldId, w1) =
            (case map_of params ''cachedFieldId'' of
               Some (JStr c) \<Rightarrow>
                 if c \<noteq> [] then (c, w)
                 else (let (n, w') = nanoid w in (''field_'' @ n, w'))
             | _ \<Rightarrow> (let (n, w') = nanoid w in (''field_'' @ n, w')))
      in (fieldId,
          ws_send
            (JObj (AList.update ''sessionId'' (JStr sessionId)
                    (AList.update ''fieldId'' (JStr fieldId)
                      (AList.update ''action'' (JStr ''render'') params)))) w1))"

subsection \<open>The operations of \<open>elements(sessionId, isStandalone)\<close>\<close>

text \<open>
  Every operation returns the promise of its result; the identifier of the rendered field
  is returned with it, so that statements can name it.
\<close>

definition "text" :: "string \<Rightarrow> bool \<Rightarrow> string \<Rightarrow> options \<Rightarrow> world \<Rightarrow> string \<times> nat \<times> world" where
  "text sessionId isStandalone label options w =
     (let (renderedFieldId, w1) =
            renderFieldInForm sessionId
              (AList.update ''type'' (JStr ''text'')
                (AList.update ''label'' (JStr label)
                  (plain options))) w;
          w2 = fieldValidators_set renderedFieldId
                 (or_default (customValidator options) text_defaultCustomValidator) w1;
          (p, w3) = waitForEvent (eventId sessionId renderedFieldId ''resolve'')
                      (CbDestroy isStandalone renderedFieldId sessionId) (\<lambda>v. v) w2
      in (renderedFieldId, p, w3))"

definition number :: "string \<Rightarrow> bool \<Rightarrow> string \<Rightarrow> options \<Rightarrow> world \<Rightarrow> string \<times> nat \<times> world" where
  "number sessionId isStandalone label options w =
     (let (renderedFieldId, w1) =
            renderFieldInForm sessionId
              (AList.update ''number'' (JBool True)
                (AList.update ''label'' (JStr label)
                  (AList.update ''type'' (JStr ''number'')
                    (plain options)))) w;
          w2 = fieldValidators_set renderedFieldId
                 (or_default (customValidator options) number_defaultCustomValidator) w1;
          (p, w3) = waitForEvent (eventId sessionId renderedFieldId ''resolve'')
                      (CbDestroy isStandalone renderedFieldId sessionId) (\<lambda>v. v) w2
      in (renderedFieldId, p, w3))"

definition currency :: "string \<Rightarrow> bool \<Rightarrow> string \<Rightarrow> options \<Rightarrow> world \<Rightarrow> string \<times> nat \<times> world" where
  "currency sessionId isStandalone label options w =
     (let (renderedFieldId, w1) =
            renderFieldInForm sessionId
              (AList.update ''minDecimals'' (js_or (obj_get (JObj (plain options)) ''decimals'') (JNum 2))
                (AList.update ''decimals'' (JUndefined)
                  (AList.update ''label'' (JStr label)
                    (AList.update ''type'' (JStr ''currency'')
                      (plain options))))) w;
          w2 = fieldValidators_set renderedFieldId
                 (or_default (customValidator options) currency_defaultCustomValidator) w1;
          (p, w3) = waitForEvent (eventId sessionId renderedFieldId ''resolve'')
                      (CbDestroy isStandalone renderedFieldId sessionId) (\<lambda>v. v) w2
      in (renderedFieldId, p, w3))"

definition markdown :: "string \<Rightarrow> bool \<Rightarrow> string \<Rightarrow> options \<Rightarrow> world \<Rightarrow> string \<times> nat \<times> world" where
  "markdown sessionId isStandalone label options w =
     (let (renderedFieldId, w1) =
            renderFieldInForm sessionId
              (AList.update ''label'' (JStr label)
                (AList.update ''type'' (JStr ''markdown'')
                  (plain options))) w;
          w2 = fieldValidators_set renderedFieldId
                 (or_default (customValidator options) markdown_defaultValidator) w1;
          (p, w3) = waitForEvent (eventId sessionId renderedFieldId ''resolve'')
                      (CbDestroy isStandalone renderedFieldId sessionId) (\<lambda>v. v) w2
      in (renderedFieldId, p, w3))"

definition richText :: "string \<Rightarrow> bool \<Rightarrow> string \<Rightarrow> options \<Rightarrow> world \<Rightarrow> string \<times> nat \<times> world" where
  "richText sessionId isStandalone label options w =
     (let (renderedFieldId, w1) =
            renderFieldInForm sessionId
              (AList.update ''label'' (JStr label)
                (AList.update ''type'' (JStr ''richText'')
                  (plain options))) w;
          w2 = fieldValidators_set renderedFieldId
                 (or_default (customValidator options) richText_defaultValidator) w1;
          (p, w3) = waitForEvent (eventId sessionId renderedFieldId ''resolve'')
                      (CbDestroy isStandalone renderedFieldId sessionId) (\<lambda>v. v) w2
      in (renderedFieldId, p, w3))"

definition slider :: "string \<Rightarrow> bool \<Rightarrow> string \<Rightarrow> options \<Rightarrow> world \<Rightarrow> string \<times> nat \<times> world" where
  "slider sessionId isStandalone label options w =
     (let (renderedFieldId, w1) =
            renderFieldInForm sessionId
              (AList.update ''label'' (JStr label)
                (AList.update ''type'' (JStr ''slider'')
                  (plain options))) w;
          w2 = fieldValidators_set renderedFieldId
                 (or_default (customValidator options) slider_defaultValidator) w1;
          (p, w3) = waitForEvent (eventId sessionId renderedFieldId ''resolve'')
                      (CbDestroy isStandalone renderedFieldId sessionId) (\<lambda>v. v) w2
      in (renderedFieldId, p, w3))"

definition email :: "string \<Rightarrow> bool \<Rightarrow> string \<Rightarrow> options \<Rightarrow> world \<Rightarrow> string \<times> nat \<times> world" where
  "email sessionId isStandalone label options w =
     (let (renderedFieldId, w1) =
            renderFieldInForm sessionId
              (AList.update ''label'' (JStr label)
                (AList.update ''type'' (JStr ''email'')
                  (plain options))) w;
          w2 = fieldValidators_set renderedFieldId
                 (or_default (customValidator options) email_defaultValidator) w1;
          (p, w3) = waitForEvent (eventId sessionId renderedFieldId ''resolve'')
                      (CbDestroy isStandalone renderedFieldId sessionId) (\<lambda>v. v) w2
      in (renderedFieldId, p, w3))"

definition checkbox :: "string \<Rightarrow> bool \<Rightarrow> string \<Rightarrow> options \<Rightarrow> world \<Rightarrow> string \<times> nat \<times> world" where
  "checkbox sessionId isStandalone label options w =
     (let (renderedFieldId, w1) =
            renderFieldInForm sessionId
              (AList.update ''label'' (JStr label)
                (AList.update ''type'' (JStr ''checkbox'')
                  (plain options))) w;
          w2 = fieldValidators_set renderedFieldId
                 (or_default (customValidator options) checkbox_defaultValidator) w1;
          (p, w3) = waitForEvent (eventId sessionId renderedFieldId ''resolve'')
                      (CbDestroy isStandalone renderedFieldId sessionId) (\<lambda>v. v) w2
      in (renderedFieldId, p, w3))"

definition checkboxes_box :: "jsvalue \<Rightarrow> jsvalue" where
  "checkboxes_box item =
     (if truthy (obj_get item ''disabled'')
      then JObj [(''label'', obj_get item ''label''), (''help'', obj_get item ''help''),
                 (''value'', obj_get item ''value''),
                 (''attrs'', JObj [(''disabled'', JBool True)])]
      else item)"

definition checkboxes :: "string \<Rightarrow> bool \<Rightarrow> string \<Rightarrow> jsvalue list \<Rightarrow> options \<Rightarrow> world \<Rightarrow> string \<times> nat \<times> world" where
  "checkboxes sessionId isStandalone label items options w =
     (let (renderedFieldId, w1) =
            renderFieldInForm sessionId
              (AList.update ''options'' (JArr (map checkboxes_box items))
                (AList.update ''label'' (JStr label)
                  (AList.update ''type'' (JStr ''checkbox'')
                    (plain options)))) w;
          w2 = fieldValidators_set renderedFieldId
                 (or_default (customValidator options) checkboxes_defaultValidator) w1;
          (p, w3) = waitForEvent (eventId sessionId renderedFieldId ''resolve'')
                      (CbDestroy isStandalone renderedFieldId sessionId) (\<lambda>v. v) w2
      in (renderedFieldId, p, w3))"

definition radio_box :: "jsvalue \<Rightarrow> jsvalue" where
  "radio_box item =
     (if truthy (obj_get item ''disabled'')
      then JObj [(''label'', obj_get item ''label''), (''help'', obj_get item ''help''),
                 (''value'', obj_get item ''value''),
                 (''attrs'', JObj [(''disabled'', JBool True)])]
      else item)"

definition radio :: "string \<Rightarrow> bool \<Rightarrow> string \<Rightarrow> jsvalue list \<Rightarrow> options \<Rightarrow> world \<Rightarrow> string \<times> nat \<times> world" where
  "radio sessionId isStandalone label items options w =
     (let (renderedFieldId, w1) =
            renderFieldInForm sessionId
              (AList.update ''options'' (JArr (map radio_box items))
                (AList.update ''label'' (JStr label)
                  (AList.update ''type'' (JStr ''radio'')
                    (plain options)))) w;
          w2 = fieldValidators_set renderedFieldId
                 (or_default (customValidator options) radio_defaultValidator) w1;
          (p, w3) = waitForEvent (eventId sessionId renderedFieldId ''resolve'')
                      (CbDestroy isStandalone renderedFieldId sessionId) (\<lambda>v. v) w2
      in (renderedFieldId, p, w3))"

definition select_option :: "jsvalue \<Rightarrow> jsvalue" where
  "select_option item =
     (if truthy (obj_get item ''disabled'')
      then JObj [(''label'', obj_get item ''label''), (''value'', obj_get item ''value''),
                 (''attrs'', JObj [(''disabled'', JBool True)])]
      else item)"

definition select :: "string \<Rightarrow> bool \<Rightarrow> string \<Rightarrow> jsvalue list \<Rightarrow> options \<Rightarrow> world \<Rightarrow> string \<times> nat \<times> world" where
  "select sessionId isStandalone label items options w =
     (let (renderedFieldId, w1) =
            renderFieldInForm sessionId
              (AList.update ''options'' (JArr (map select_option items))
                (AList.update ''label'' (JStr label)
                  (AList.update ''type'' (JStr ''select'')
                    (plain options)))) w;
          w2 = fieldValidators_set renderedFieldId
                 (or_default (customValidator options) select_defaultValidator) w1;
          (p, w3) = waitForEvent (eventId sessionId renderedFieldId ''resolve'')
                      (CbDestroy isStandalone renderedFieldId sessionId) (\<lambda>v. v) w2
      in (renderedFieldId, p, w3))"

definition autocomplete :: "string \<Rightarrow> bool \<Rightarrow> string \<Rightarrow> (jsvalue \<Rightarrow> jsvalue) \<Rightarrow> options \<Rightarrow> world \<Rightarrow> string \<times> nat \<times> world" where
  "autocomplete sessionId isStandalone label query options w =
     (let (renderedFieldId, w1) =
            renderFieldInForm sessionId
              (AList.update ''label'' (JStr label)
                (AList.update ''type'' (JStr ''autocomplete'')
                  (plain options))) w;
          w2 = emitter_on (eventId sessionId renderedFieldId ''patch'')
                 (PatchAutocomplete query renderedFieldId sessionId) w1;
          w3 = fieldValidators_set renderedFieldId
                 (or_default (customValidator options) autocomplete_defaultValidator) w2;
          (p, w4) = waitForEvent (eventId sessionId renderedFieldId ''resolve'')
                      (CbUnsubscribe (eventId sessionId renderedFieldId ''patch'')) (\<lambda>v. v) w3
      in (renderedFieldId, p, w4))"

text \<open>
  \<open>pick\<close> is a member of the options of \<open>address\<close> that is a function; it is an
  argument of its own here.
\<close>

definition address :: "string \<Rightarrow> bool \<Rightarrow> string \<Rightarrow> string \<Rightarrow> (jsvalue \<Rightarrow> jsvalue) option \<Rightarrow> options \<Rightarrow> world \<Rightarrow> string \<times> nat \<times> world" where
  "address sessionId isStandalone label googleMapsApiKey pick options w =
     (let (renderedFieldId, w1) =
            renderFieldInForm sessionId
              (AList.update ''label'' (JStr label)
                (AList.update ''type'' (JStr ''autocomplete'')
                  (plain options))) w;
          w2 = emitter_on (eventId sessionId renderedFieldId ''patch'')
                 (PatchAddress googleMapsApiKey renderedFieldId sessionId) w1;
          w3 = fieldValidators_set renderedFieldId
                 (or_default (customValidator options) address_defaultValidator) w2;
          (p, w4) = waitForEvent (eventId sessionId renderedFieldId ''resolve'')
                      (CbUnsubscribe (eventId sessionId renderedFieldId ''patch''))
                      (case pick of None \<Rightarrow> (\<lambda>result. result) | Some f \<Rightarrow> f) w3
      in (renderedFieldId, p, w4))"

definition date :: "string \<Rightarrow> bool \<Rightarrow> string \<Rightarrow> options \<Rightarrow> world \<Rightarrow> string \<times> nat \<times> world" where
  "date sessionId isStandalone label options w =
     (let (renderedFieldId, w1) =
            renderFieldInForm sessionId
              (AList.update ''label'' (JStr label)
                (AList.update ''type'' (JStr ''date'')
                  (plain options))) w;
          w2 = fieldValidators_set renderedFieldId
                 (or_default (customValidator options) date_defaultValidator) w1;
          (p, w3) = waitForEvent (eventId sessionId renderedFieldId ''resolve'')
                      (CbDestroy isStandalone renderedFieldId sessionId) (\<lambda>v. v) w2
      in (renderedFieldId, p, w3))"

definition datetimeLocal :: "string \<Rightarrow> bool \<Rightarrow> string \<Rightarrow> options \<Rightarrow> world \<Rightarrow> string \<times> nat \<times> world" where
  "datetimeLocal sessionId isStandalone label options w =
     (let (renderedFieldId, w1) =
            renderFieldInForm sessionId
              (AList.update ''label'' (JStr label)
                (AList.update ''type'' (JStr ''datetime-local'')
                  (plain options))) w;
          w2 = fieldValidators_set renderedFieldId
                 (or_default (customValidator options) datetimeLocal_defaultValidator) w1;
          (p, w3) = waitForEvent (eventId sessionId renderedFieldId ''resolve'')
                      (CbDestroy isStandalone renderedFieldId sessionId) (\<lambda>v. v) w2
      in (renderedFieldId, p, w3))"

definition time :: "string \<Rightarrow> bool \<Rightarrow> string \<Rightarrow> options \<Rightarrow> world \<Rightarrow> string \<times> nat \<times> world" where
  "time sessionId isStandalone label options w =
     (let (renderedFieldId, w1) =
            renderFieldInForm sessionId
              (AList.update ''label'' (JStr label)
                (AList.update ''type'' (JStr ''time'')
                  (plain options))) w;
          w2 = fieldValidators_set renderedFieldId
                 (or_default (customValidator options) time_defaultValidator) w1;
          (p, w3) = waitForEvent (eventId sessionId renderedFieldId ''resolve'')
                      (CbDestroy isStandalone renderedFieldId sessionId) (\<lambda>v. v) w2
      in (renderedFieldId, p, w3))"

definition colorpicker :: "string \<Rightarrow> bool \<Rightarrow> string \<Rightarrow> options \<Rightarrow> world \<Rightarrow> string \<times> nat \<times> world" where
  "colorpicker sessionId isStandalone label options w =
     (let (renderedFieldId, w1) =
            renderFieldInForm sessionId
              (AList.update ''inline'' (js_or (obj_get (JObj (plain options)) ''inline'') (JBool True))
                (AList.update ''label'' (JStr label)
                  (AList.update ''type'' (JStr ''colorpicker'')
                    (plain options)))) w;
          w2 = fieldValidators_set renderedFieldId
                 (or_default (customValidator options) colorpicker_defaultValidator) w1;
          (p, w3) = waitForEvent (eventId sessionId renderedFieldId ''resolve'')
                      (CbDestroy isStandalone renderedFieldId sessionId) (\<lambda>v. v) w2
      in (renderedFieldId, p, w3))"

text \<open>
  \<open>table\<close> first awaits the caller's query for the first page and does not use the
  answer; the model starts where that query has answered.
\<close>

definition table :: "string \<Rightarrow> bool \<Rightarrow> string \<Rightarrow> (jsvalue \<Rightarrow> jsvalue) \<Rightarrow> options \<Rightarrow> world \<Rightarrow> string \<times> nat \<times> world" where
  "table sessionId isStandalone label query options w =
     (let (renderedFieldId, w1) =
            renderFieldInForm sessionId
              (AList.update ''label'' (JStr label)
                (AList.update ''filterable'' (obj_get (JObj (plain options)) ''filterable'')
                  (AList.update ''type'' (JStr ''table'')
                    (plain options)))) w;
          w2 = (if truthy (obj_get (JObj (plain options)) ''filterable'')
                then emitter_on (eventId sessionId renderedFieldId ''patch'')
                       (PatchTable query
                          (js_or (obj_get (JObj (plain options)) ''resultsPerPage'') (JNum 10))
                          renderedFieldId sessionId) w1
                else w1);
          w3 = fieldValidators_set renderedFieldId
                 (or_default (customValidator options) table_defaultValidator) w2;
          (p, w4) = waitForEvent (eventId sessionId renderedFieldId ''resolve'')
                      (CbDestroy isStandalone renderedFieldId sessionId) (\<lambda>v. v) w3
      in (renderedFieldId, p, w4))"


section \<open>Groups\<close>

text \<open>
  The builder passed to \<open>group\<close> calls operations of \<open>elements(sessionId, false)\<close>
  and returns their promises; it is modelled by the list of the operations it calls,
  in the order of the returned array.
\<close>

datatype field_op =
    OpText string options
  | OpNumber string options
  | OpCurrency string options
  | OpMarkdown string options
  | OpRichText string options
  | OpSlider string options
  | OpEmail string options
  | OpCheckbox string options
  | OpCheckboxes string "jsvalue list" options
  | OpRadio string "jsvalue list" options
  | OpSelect string "jsvalue list" options
  | OpAutocomplete string "jsvalue \<Rightarrow> jsvalue" options
  | OpAddress string string "(jsvalue \<Rightarrow> jsvalue) option" options
  | OpDate string options
  | OpDatetimeLocal string options
  | OpTime string options
  | OpColorpicker string options
  | OpTable string "jsvalue \<Rightarrow> jsvalue" options

fun invoke :: "string \<Rightarrow> bool \<Rightarrow> field_op \<Rightarrow> world \<Rightarrow> string \<times> nat \<times> world" where
  "invoke sid st (OpText label opts) w = text sid st label opts w"
| "invoke sid st (OpNumber label opts) w = number sid st label opts w"
| "invoke sid st (OpCurrency label opts) w = currency sid st label opts w"
| "invoke sid st (OpMarkdown label opts) w = markdown sid st label opts w"
| "invoke sid st (OpRichText label opts) w = richText sid st label opts w"
| "invoke sid st (OpSlider label opts) w = slider sid st label opts w"
| "invoke sid st (OpEmail label opts) w = email sid st label opts w"
| "invoke sid st (OpCheckbox label opts) w = checkbox sid st label opts w"
| "invoke sid st (OpCheckboxes label items opts) w = checkboxes sid st label items opts w"
| "invoke sid st (OpRadio label items opts) w = radio sid st label items opts w"
| "invoke sid st (OpSelect label items opts) w = select sid st label items opts w"
| "invoke sid st (OpAutocomplete label query opts) w = autocomplete sid st label query opts w"
| "invoke sid st (OpAddress label key pick opts) w = address sid st label key pick opts w"
| "invoke sid st (OpDate label opts) w = date sid st label opts w"
| "invoke sid st (OpDatetimeLocal label opts) w = datetimeLocal sid st label opts w"
| "invoke sid st (OpTime label opts) w = time sid st label opts w"
| "invoke sid st (OpColorpicker label opts) w = colorpicker sid st label opts w"
| "invoke sid st (OpTable label query opts) w = table sid st label query opts w"

fun invoke_all :: "string \<Rightarrow> bool \<Rightarrow> field_op list \<Rightarrow> world \<Rightarrow> nat list \<times> world" where
  "invoke_all sid st [] w = ([], w)"
| "invoke_all sid st (operation # rest) w =
     (let (fid, p, w1) = invoke sid st operation w;
          (ps, w2) = invoke_all sid st rest w1
      in (p # ps, w2))"

text \<open>
  \<open>group\<close>: call the builder, draw the group identifier, schedule the
  \<open>Promise.all\<close> of the returned promises (a watcher), and wait for the group's event.
\<close>

definition group :: "string \<Rightarrow> field_op list \<Rightarrow> world \<Rightarrow> nat \<times> world" where
  "group sessionId groupElements w =
     (let (elementPromises, w1) = invoke_all sessionId False groupElements w;
          (n, w2) = nanoid w1;
          groupId = ''group_'' @ n;
          w3 = w2\<lparr>watchers := watchers w2 @ [(sessionId @ '':'' @ groupId, elementPromises)]\<rparr>
      in waitForEvent (sessionId @ '':'' @ groupId) (CbGroupComplete sessionId) (\<lambda>v. v) w3)"

text \<open>
  The continuation of \<open>await Promise.all(elementPromises)\<close>: once every member has
  returned, the group's event is emitted with the results in the order of the array.
\<close>

definition run_watcher :: "string \<times> nat list \<Rightarrow> world \<Rightarrow> world" where
  "run_watcher g w =
     (case those (map (settled w) (snd g)) of
        None \<Rightarrow> w
      | Some results \<Rightarrow>
          emit (fst g) (JArr results) (w\<lparr>watchers := remove1 g (watchers w)\<rparr>))"

fun run_watchers :: "(string \<times> nat list) list \<Rightarrow> world \<Rightarrow> world" where
  "run_watchers [] w = w"
| "run_watchers (g # gs) w = run_watchers gs (run_watcher g w)"

definition settle_groups :: "world \<Rightarrow> world" where
  "settle_groups w = run_watchers (watchers w) w"

text \<open>
  \<open>internalStack\<close> builds the connection and the empty registries and announces itself.
  The keep-alive timer, the display elements and the host's workflow function are not
  part of the model.
\<close>

definition internalStack ::
  "(nat \<Rightarrow> string) \<Rightarrow> (jsvalue \<Rightarrow> string \<Rightarrow> jsvalue) \<Rightarrow> (jsvalue \<Rightarrow> jsvalue \<Rightarrow> jsvalue option) \<Rightarrow> world" where
  "internalStack ids lookup arithmetic =
     ws_send msg_updatePeers
       \<lparr>fieldValidators = Map.empty, listeners = (\<lambda>key. []), watchers = [],
        settled = Map.empty, nanoid_src = ids, drawn = 0, places = lookup,
        page_offset = arithmetic, promises = 0, trace = []\<rparr>"

text \<open>Reading messages and the trace.\<close>

definition is_action :: "string \<Rightarrow> jsvalue \<Rightarrow> bool" where
  "is_action a m = (obj_get m ''action'' = JStr a)"

definition is_for :: "string \<Rightarrow> string \<Rightarrow> jsvalue \<Rightarrow> bool" where
  "is_for a fieldId m = (is_action a m \<and> obj_get m ''fieldId'' = JStr fieldId)"

definition msg_resolve :: "string \<Rightarrow> string \<Rightarrow> jsvalue \<Rightarrow> jsvalue" where
  "msg_resolve sessionId fieldId fieldValue =
     JObj [(''action'', JStr ''resolve''), (''fieldId'', JStr fieldId),
           (''sessionId'', JStr sessionId), (''fieldValue'', fieldValue)]"

definition msg_inbound_patch :: "string \<Rightarrow> string \<Rightarrow> jsvalue \<Rightarrow> jsvalue" where
  "msg_inbound_patch sessionId fieldId data =
     JObj [(''action'', JStr ''patch''), (''fieldId'', JStr fieldId),
           (''sessionId'', JStr sessionId), (''data'', data)]"


section \<open>Notions used in the statements\<close>

definition field_of :: "string \<times> nat \<times> world \<Rightarrow> string" where
  "field_of r = fst r"

definition promise_of :: "string \<times> nat \<times> world \<Rightarrow> nat" where
  "promise_of r = fst (snd r)"

definition world_of :: "string \<times> nat \<times> world \<Rightarrow> world" where
  "world_of r = snd (snd r)"

text \<open>The parts of an operation: its options, and what it registers.\<close>

fun options_of :: "field_op \<Rightarrow> options" where
  "options_of (OpText label opts) = opts"
| "options_of (OpNumber label opts) = opts"
| "options_of (OpCurrency label opts) = opts"
| "options_of (OpMarkdown label opts) = opts"
| "options_of (OpRichText label opts) = opts"
| "options_of (OpSlider label opts) = opts"
| "options_of (OpEmail label opts) = opts"
| "options_of (OpCheckbox label opts) = opts"
| "options_of (OpCheckboxes label items opts) = opts"
| "options_of (OpRadio label items opts) = opts"
| "options_of (OpSelect label items opts) = opts"
| "options_of (OpAutocomplete label query opts) = opts"
| "options_of (OpAddress label key pick opts) = opts"
| "options_of (OpDate label opts) = opts"
| "options_of (OpDatetimeLocal label opts) = opts"
| "options_of (OpTime label opts) = opts"
| "options_of (OpColorpicker label opts) = opts"
| "options_of (OpTable label query opts) = opts"

fun default_validator_of :: "field_op \<Rightarrow> validator" where
  "default_validator_of (OpText label opts) = text_defaultCustomValidator"
| "default_validator_of (OpNumber label opts) = number_defaultCustomValidator"
| "default_validator_of (OpCurrency label opts) = currency_defaultCustomValidator"
| "default_validator_of (OpMarkdown label opts) = markdown_defaultValidator"
| "default_validator_of (OpRichText label opts) = richText_defaultValidator"
| "default_validator_of (OpSlider label opts) = slider_defaultValidator"
| "default_validator_of (OpEmail label opts) = email_defaultValidator"
| "default_validator_of (OpCheckbox label opts) = checkbox_defaultValidator"
| "default_validator_of (OpCheckboxes label items opts) = checkboxes_defaultValidator"
| "default_validator_of (OpRadio label items opts) = radio_defaultValidator"
| "default_validator_of (OpSelect label items opts) = select_defaultValidator"
| "default_validator_of (OpAutocomplete label query opts) = autocomplete_defaultValidator"
| "default_validator_of (OpAddress label key pick opts) = address_defaultValidator"
| "default_validator_of (OpDate label opts) = date_defaultValidator"
| "default_validator_of (OpDatetimeLocal label opts) = datetimeLocal_defaultValidator"
| "default_validator_of (OpTime label opts) = time_defaultValidator"
| "default_validator_of (OpColorpicker label opts) = colorpicker_defaultValidator"
| "default_validator_of (OpTable label query opts) = table_defaultValidator"

definition validator_of :: "field_op \<Rightarrow> validator" where
  "validator_of operation =
     or_default (customValidator (options_of operation)) (default_validator_of operation)"

text \<open>What the operation returns for the value its wait resolves with.\<close>

fun continuation_of :: "field_op \<Rightarrow> jsvalue \<Rightarrow> jsvalue" where
  "continuation_of (OpAddress label key (Some pick) opts) = pick"
| "continuation_of operation = (\<lambda>v. v)"

text \<open>The operations whose callback unsubscribes the patch listener.\<close>

fun unsubscribing :: "field_op \<Rightarrow> bool" where
  "unsubscribing (OpAutocomplete label query opts) = True"
| "unsubscribing (OpAddress label key pick opts) = True"
| "unsubscribing operation = False"

definition callback_of :: "bool \<Rightarrow> string \<Rightarrow> string \<Rightarrow> field_op \<Rightarrow> callback" where
  "callback_of isStandalone sessionId fieldId operation =
     (if unsubscribing operation then CbUnsubscribe (eventId sessionId fieldId ''patch'')
      else CbDestroy isStandalone fieldId sessionId)"

fun patchers_of :: "string \<Rightarrow> string \<Rightarrow> field_op \<Rightarrow> listener list" where
  "patchers_of sessionId fieldId (OpAutocomplete label query opts) =
     [PatchAutocomplete query fieldId sessionId]"
| "patchers_of sessionId fieldId (OpAddress label key pick opts) =
     [PatchAddress key fieldId sessionId]"
| "patchers_of sessionId fieldId (OpTable label query opts) =
     (if truthy (obj_get (JObj (plain opts)) ''filterable'')
      then [PatchTable query (js_or (obj_get (JObj (plain opts)) ''resultsPerPage'') (JNum 10))
              fieldId sessionId]
      else [])"
| "patchers_of sessionId fieldId operation = []"

fun is_on :: "effect \<Rightarrow> bool" where
  "is_on (On key) = True"
| "is_on e = False"

fun is_string :: "jsvalue \<Rightarrow> bool" where
  "is_string (JStr s) = True"
| "is_string v = False"

fun is_waiter :: "listener \<Rightarrow> bool" where
  "is_waiter (Waiter cb p k) = True"
| "is_waiter l = False"

text \<open>
  Patch listeners are registered on patch events only: a listener that is not a waiter
  sits on a key of the form \<open>eventId s f ''patch''\<close>.
\<close>

definition listeners_disciplined :: "world \<Rightarrow> bool" where
  "listeners_disciplined w \<longleftrightarrow>
     (\<forall>key l. l \<in> set (listeners w key) \<and> \<not> is_waiter l \<longrightarrow> (\<exists>s f. key = eventId s f ''patch''))"


fun emitted_on :: "string \<Rightarrow> effect \<Rightarrow> bool" where
  "emitted_on key (Emit k d) = (k = key)"
| "emitted_on key e = False"

text \<open>The effects of a callback.\<close>

fun callback_effects :: "callback \<Rightarrow> effect list" where
  "callback_effects (CbDestroy isStandalone fieldId sessionId) =
     (if isStandalone then [Send (msg_destroy fieldId sessionId)] else [])"
| "callback_effects (CbUnsubscribe key) = [RemoveAll key]"
| "callback_effects (CbGroupComplete sessionId) = [Send (msg_groupComplete sessionId)]"

text \<open>
  \<open>started sid st operation w fid p w1\<close>: the world \<open>w1\<close> is \<open>w\<close> after the
  operation has rendered the field \<open>fid\<close>, registered its validator and begun to wait,
  with \<open>p\<close> the promise it returned.
\<close>

definition started :: "string \<Rightarrow> bool \<Rightarrow> field_op \<Rightarrow> world \<Rightarrow> string \<Rightarrow> nat \<Rightarrow> world \<Rightarrow> bool" where
  "started sid st operation w fid p w1 \<longleftrightarrow>
     p = promises w \<and> promises w1 = Suc (promises w) \<and>
     fieldValidators w1 = (fieldValidators w)(fid \<mapsto> validator_of operation) \<and>
     settled w1 = settled w \<and> watchers w1 = watchers w \<and> places w1 = places w \<and>
     nanoid_src w1 = nanoid_src w \<and>
     listeners w1 =
       (\<lambda>key. listeners w key
          @ (if key = eventId sid fid ''patch'' then patchers_of sid fid operation else [])
          @ (if key = eventId sid fid ''resolve''
             then [Waiter (callback_of st sid fid operation) p (continuation_of operation)] else [])) \<and>
     (\<exists>r. is_action ''render'' r \<and> obj_get r ''fieldId'' = JStr fid \<and>
          trace w1 = trace w @ Send r # map On (map (\<lambda>l. eventId sid fid ''patch'') (patchers_of sid fid operation))
                      @ [SetValidator fid, Once (eventId sid fid ''resolve'')])"


text \<open>
  \<open>stepwise sid st operation w fid p w1\<close>: the operation is the rendering of the
  field, then possibly one subscription to patch events, then the registration of the
  validator, then the call of \<open>waitForEvent\<close>, applied in this order.
\<close>

definition stepwise :: "string \<Rightarrow> bool \<Rightarrow> field_op \<Rightarrow> world \<Rightarrow> string \<Rightarrow> nat \<Rightarrow> world \<Rightarrow> bool" where
  "stepwise sid st operation w fid p w1 \<longleftrightarrow>
     (\<exists>params w0 rendered.
        renderFieldInForm sid params w = (fid, w0) \<and>
        (rendered = w0 \<or> (\<exists>l. rendered = emitter_on (eventId sid fid ''patch'') l w0)) \<and>
        waitForEvent (eventId sid fid ''resolve'') (callback_of st sid fid operation)
          (continuation_of operation)
          (fieldValidators_set fid (validator_of operation) rendered) = (p, w1))"

subsection \<open>A concrete run\<close>

text \<open>
  One session \<open>s1\<close> on a fresh engine whose identifiers are \<open>x\<close>, \<open>xx\<close>, \<open>xxx\<close>, ...:
  a standalone text field, an autocomplete, a filterable table, an address field with a
  \<open>pick\<close> function, and a group of a text field and a number field.
\<close>

definition example_ids :: "nat \<Rightarrow> string" where
  "example_ids n = replicate (Suc n) CHR ''x''"

text \<open>
  The arithmetic of the run. The run calls it on two small numbers only, where it is the
  exact product; this instance answers \<open>None\<close> on every other operand.
\<close>

definition example_offset :: "jsvalue \<Rightarrow> jsvalue \<Rightarrow> jsvalue option" where
  "example_offset page pageSize =
     (case page of
        JNum n \<Rightarrow> (case pageSize of JNum m \<Rightarrow> Some (JNum ((n - 1) * m)) | _ \<Rightarrow> None)
      | _ \<Rightarrow> None)"

definition example_world :: world where
  "example_world = internalStack example_ids (\<lambda>input apiKey. JArr []) example_offset"

definition no_options :: options where
  "no_options = \<lparr>plain = [], customValidator = None\<rparr>"


definition example_field :: "string \<times> nat \<times> world" where
  "example_field = text ''s1'' True ''Note'' no_options example_world"

text \<open>
  The validator map is keyed by the field alone: a valid \<open>resolve\<close> for the field under
  another session removes the validator and wakes nobody.
\<close>

definition example_unvalidated :: world where
  "example_unvalidated =
     on_message (msg_resolve ''s2'' ''field_x'' (JStr ''ok'')) (world_of example_field)"

text \<open>The text field after an empty submission has been rejected.\<close>

definition example_rejected :: world where
  "example_rejected = on_message (msg_resolve ''s1'' ''field_x'' (JStr [])) (world_of example_field)"


definition example_autocomplete :: "string \<times> nat \<times> world" where
  "example_autocomplete =
     autocomplete ''s1'' True ''City'' (\<lambda>input. JArr [input]) no_options example_world"

definition example_table :: "string \<times> nat \<times> world" where
  "example_table =
     table ''s1'' True ''Rows''
       (\<lambda>request. JArr [obj_get request ''query'', obj_get request ''offset'',
                        obj_get request ''pageSize''])
       \<lparr>plain = [(''filterable'', JBool True)], customValidator = None\<rparr> example_world"

definition example_table_resolved :: world where
  "example_table_resolved =
     on_message (msg_resolve ''s1'' ''field_x'' (JArr [JNum 1])) (world_of example_table)"

definition example_group_A :: "string \<times> nat \<times> world" where
  "example_group_A = invoke ''s1'' False (OpText ''A'' no_options) example_world"

definition example_group_B :: "string \<times> nat \<times> world" where
  "example_group_B = invoke ''s1'' False (OpNumber ''B'' no_options) (world_of example_group_A)"

definition example_group :: "nat \<times> world" where
  "example_group = group ''s1'' [OpText ''A'' no_options, OpNumber ''B'' no_options] example_world"

definition example_address :: "string \<times> nat \<times> world" where
  "example_address =
     address ''s1'' True ''Where'' ''key'' (Some (\<lambda>result. obj_get result ''description''))
       no_options example_world"

section \<open>Basic facts\<close>

lemma sent_of_append: "sent_of (xs @ ys) = sent_of xs @ sent_of ys"
  by (induction xs rule: sent_of.induct) simp_all

lemmas prims = log_def ws_send_def nanoid_def fieldValidators_get_def fieldValidators_delete_def
  fieldValidators_set_def emitter_on_def emitter_once_def removeListener_def
  removeAllListeners_def resolve_def waitForEvent_def sent_def

lemma eventId_type_neq: "eventId s f ''patch'' \<noteq> eventId s f ''resolve''"
  by (simp add: eventId_def)

lemma renderFieldInForm_shape:
  assumes "renderFieldInForm sid params w = (fid, w1)"
  shows "\<exists>r. trace w1 = trace w @ [Send r] \<and> is_action ''render'' r \<and>
           obj_get r ''fieldId'' = JStr fid \<and>
           (\<forall>k. k \<noteq> ''sessionId'' \<and> k \<noteq> ''fieldId'' \<and> k \<noteq> ''action'' \<longrightarrow> obj_get r k = obj_get (JObj params) k)"
    and "fieldValidators w1 = fieldValidators w" and "listeners w1 = listeners w"
    and "watchers w1 = watchers w" and "settled w1 = settled w" and "promises w1 = promises w"
    and "places w1 = places w" and "nanoid_src w1 = nanoid_src w"
  using assms
  by (auto simp: renderFieldInForm_def prims is_action_def update_conv' Let_def
      split: option.splits jsvalue.splits if_splits prod.splits)

lemma plain_started:
  assumes "renderFieldInForm sid params w = (fid, w1)"
    and "waitForEvent (eventId sid fid ''resolve'') (CbDestroy st fid sid) (\<lambda>v. v)
           (fieldValidators_set fid (validator_of operation) w1) = (p, w3)"
    and "unsubscribing operation = False" and "patchers_of sid fid operation = []"
    and "continuation_of operation = (\<lambda>v. v)"
  shows "started sid st operation w fid p w3"
  using renderFieldInForm_shape[OF assms(1)] assms(2-)
  by (auto simp: started_def prims callback_of_def Let_def fun_eq_iff)

lemma patched_started:
  assumes "renderFieldInForm sid params w = (fid, w1)"
    and "waitForEvent (eventId sid fid ''resolve'') cb k
           (fieldValidators_set fid (validator_of operation)
              (emitter_on (eventId sid fid ''patch'') l w1)) = (p, w3)"
    and "callback_of st sid fid operation = cb" and "patchers_of sid fid operation = [l]"
    and "continuation_of operation = k"
  shows "started sid st operation w fid p w3"
  using renderFieldInForm_shape[OF assms(1)] assms(2-) eventId_type_neq[of sid fid]
  by (auto simp: started_def prims Let_def fun_eq_iff)

lemma invoke_started:
  assumes "invoke sid st operation w = (fid, p, w1)"
  shows "started sid st operation w fid p w1"
proof (cases operation)
  case (OpText label opts)
  with assms show ?thesis
    by (auto simp: text_def split: prod.splits
        intro: plain_started[where operation="OpText label opts", unfolded validator_of_def, simplified])
next
  case (OpNumber label opts)
  with assms show ?thesis
    by (auto simp: number_def split: prod.splits
        intro: plain_started[where operation="OpNumber label opts", unfolded validator_of_def, simplified])
next
  case (OpCurrency label opts)
  with assms show ?thesis
    by (auto simp: currency_def split: prod.splits
        intro: plain_started[where operation="OpCurrency label opts", unfolded validator_of_def, simplified])
next
  case (OpMarkdown label opts)
  with assms show ?thesis
    by (auto simp: markdown_def split: prod.splits
        intro: plain_started[where operation="OpMarkdown label opts", unfolded validator_of_def, simplified])
next
  case (OpRichText label opts)
  with assms show ?thesis
    by (auto simp: richText_def split: prod.splits
        intro: plain_started[where operation="OpRichText label opts", unfolded validator_of_def, simplified])
next
  case (OpSlider label opts)
  with assms show ?thesis
    by (auto simp: slider_def split: prod.splits
        intro: plain_started[where operation="OpSlider label opts", unfolded validator_of_def, simplified])
next
  case (OpEmail label opts)
  with assms show ?thesis
    by (auto simp: email_def split: prod.splits
        intro: plain_started[where operation="OpEmail label opts", unfolded validator_of_def, simplified])
next
  case (OpCheckbox label opts)
  with assms show ?thesis
    by (auto simp: checkbox_def split: prod.splits
        intro: plain_started[where operation="OpCheckbox label opts", unfolded validator_of_def, simplified])
next
  case (OpCheckboxes label items opts)
  with assms show ?thesis
    by (auto simp: checkboxes_def split: prod.splits
        intro: plain_started[where operation="OpCheckboxes label items opts", unfolded validator_of_def, simplified])
next
  case (OpRadio label items opts)
  with assms show ?thesis
    by (auto simp: radio_def split: prod.splits
        intro: plain_started[where operation="OpRadio label items opts", unfolded validator_of_def, simplified])
next
  case (OpSelect label items opts)
  with assms show ?thesis
    by (auto simp: select_def split: prod.splits
        intro: plain_started[where operation="OpSelect label items opts", unfolded validator_of_def, simplified])
next
  case (OpDate label opts)
  with assms show ?thesis
    by (auto simp: date_def split: prod.splits
        intro: plain_started[where operation="OpDate label opts", unfolded validator_of_def, simplified])
next
  case (OpDatetimeLocal label opts)
  with assms show ?thesis
    by (auto simp: datetimeLocal_def split: prod.splits
        intro: plain_started[where operation="OpDatetimeLocal label opts", unfolded validator_of_def, simplified])
next
  case (OpTime label opts)
  with assms show ?thesis
    by (auto simp: time_def split: prod.splits
        intro: plain_started[where operation="OpTime label opts", unfolded validator_of_def, simplified])
next
  case (OpColorpicker label opts)
  with assms show ?thesis
    by (auto simp: colorpicker_def split: prod.splits
        intro: plain_started[where operation="OpColorpicker label opts", unfolded validator_of_def, simplified])
next
  case (OpAutocomplete label query opts)
  with assms show ?thesis
    by (auto simp: autocomplete_def split: prod.splits
        intro: patched_started[where operation="OpAutocomplete label query opts",
                 unfolded validator_of_def callback_of_def, simplified])
next
  case (OpAddress label key pick opts)
  show ?thesis
  proof (cases pick)
    case None
    with assms OpAddress show ?thesis
      by (auto simp: address_def split: prod.splits
          intro: patched_started[where operation="OpAddress label key None opts",
                   unfolded validator_of_def callback_of_def, simplified])
  next
    case (Some f)
    with assms OpAddress show ?thesis
      by (auto simp: address_def split: prod.splits
          intro: patched_started[where operation="OpAddress label key (Some f) opts",
                   unfolded validator_of_def callback_of_def, simplified])
  qed
next
  case (OpTable label query opts)
  with assms show ?thesis
    by (cases "truthy (obj_get (JObj (plain opts)) ''filterable'')")
       (auto simp: table_def split: prod.splits
        intro: patched_started[where operation="OpTable label query opts",
                 unfolded validator_of_def callback_of_def, simplified]
               plain_started[where operation="OpTable label query opts",
                 unfolded validator_of_def, simplified])
qed


lemma run_callback_fields:
  "settled (run_callback cb w) = settled w"
  "fieldValidators (run_callback cb w) = fieldValidators w"
  "watchers (run_callback cb w) = watchers w"
  "promises (run_callback cb w) = promises w"
  "trace (run_callback cb w) = trace w @ callback_effects cb"
  "listeners (run_callback cb w) =
     (case cb of CbUnsubscribe pk \<Rightarrow> (listeners w)(pk := []) | _ \<Rightarrow> listeners w)"
  by (cases cb; simp add: prims)+

lemma emit_single_waiter:
  assumes "listeners w key = [Waiter cb p k]"
  shows "emit key x w =
     resolve p (k x) (log (Resolve p x) (run_callback cb (removeListener key p (log (Emit key x) w))))"
  using assms by (simp add: emit_def log_def)

lemma emit_no_listeners:
  assumes "listeners w key = []"
  shows "emit key x w = log (Emit key x) w"
  using assms by (simp add: emit_def log_def)

lemma emit_waiter_fields:
  assumes "listeners w key = [Waiter cb p k]" and "settled w p = None"
  shows "settled (emit key x w) = (settled w)(p \<mapsto> k x)"
    and "fieldValidators (emit key x w) = fieldValidators w"
    and "watchers (emit key x w) = watchers w"
    and "promises (emit key x w) = promises w"
    and "trace (emit key x w) = trace w @ Emit key x # callback_effects cb @ [Resolve p x]"
    and "listeners (emit key x w) =
           (case cb of CbUnsubscribe pk \<Rightarrow> (listeners w)(key := [], pk := [])
            | _ \<Rightarrow> (listeners w)(key := []))"
  using assms
  by (simp_all add: emit_single_waiter run_callback_fields resolve_def log_def removeListener_def
      split: callback.splits)

text \<open>What no listener touches, and how the trace grows.\<close>

lemma fire_frame:
  "fieldValidators (fire key x l w) = fieldValidators w"
  "page_offset (fire key x l w) = page_offset w"
  "places (fire key x l w) = places w"
  "watchers (fire key x l w) = watchers w"
  "promises (fire key x l w) = promises w"
proof (induction key x l w rule: fire.induct)
  case (1 key data cb p k w)
  {
    case 1 show ?case by (cases cb) (simp_all add: prims split: option.splits)
  next
    case 2 show ?case by (cases cb) (simp_all add: prims split: option.splits)
  next
    case 3 show ?case by (cases cb) (simp_all add: prims split: option.splits)
  next
    case 4 show ?case by (cases cb) (simp_all add: prims split: option.splits)
  next
    case 5 show ?case by (cases cb) (simp_all add: prims split: option.splits)
  }
qed (simp_all add: prims split: option.splits)

lemma run_listeners_frame:
  "fieldValidators (run_listeners key x ls w) = fieldValidators w"
  "page_offset (run_listeners key x ls w) = page_offset w"
  "places (run_listeners key x ls w) = places w"
  "watchers (run_listeners key x ls w) = watchers w"
  "promises (run_listeners key x ls w) = promises w"
  by (induction ls arbitrary: w) (simp_all add: fire_frame)

lemma emit_frame:
  "fieldValidators (emit key x w) = fieldValidators w"
  "page_offset (emit key x w) = page_offset w"
  "places (emit key x w) = places w"
  "watchers (emit key x w) = watchers w"
  "promises (emit key x w) = promises w"
  by (simp_all add: emit_def run_listeners_frame log_def)

lemma emit_on_frame:
  "fieldValidators (emit_on name x w) = fieldValidators w"
  "page_offset (emit_on name x w) = page_offset w"
  by (cases name; simp add: emit_on_def emit_frame log_def)+

lemma on_message_page_offset: "page_offset (on_message m w) = page_offset w"
  by (simp add: on_message_def on_resolve_def Let_def emit_on_frame emit_frame prims
      split: option.splits jsvalue.splits)




lemma on_message_accept:
  assumes "fieldValidators w fid = Some v" and "v x = JBool True"
  shows "on_message (msg_resolve sid fid x) w =
           emit (eventId sid fid ''resolve'') x
             (fieldValidators_delete (JStr fid) (ws_send (msg_warn (JBool True) (JStr fid) (JStr sid)) w))"
  using assms by (simp add: on_message_def on_resolve_def msg_resolve_def fieldValidators_get_def Let_def
      eventId_of_def emit_on_def)

lemma on_message_reject:
  assumes "fieldValidators w fid = Some v" and "v x \<noteq> JBool True"
  shows "on_message (msg_resolve sid fid x) w = ws_send (msg_warn (v x) (JStr fid) (JStr sid)) w"
  using assms by (simp add: on_message_def on_resolve_def msg_resolve_def fieldValidators_get_def Let_def
      eventId_of_def emit_on_def)

lemma on_message_unvalidated:
  assumes "fieldValidators w fid = None"
  shows "on_message (msg_resolve sid fid x) w =
           emit (eventId sid fid ''resolve'') x (fieldValidators_delete (JStr fid) w)"
  using assms by (simp add: on_message_def on_resolve_def msg_resolve_def fieldValidators_get_def Let_def
      eventId_of_def emit_on_def)

lemma callback_sends_no_warn: "filter (is_action ''warn'') (sent_of (callback_effects cb)) = []"
  by (cases cb) (simp_all add: is_action_def msg_destroy_def msg_groupComplete_def)

lemma is_warn_msg_warn: "is_action ''warn'' (msg_warn r f s)"
  by (simp add: is_action_def msg_warn_def)

lemmas example_defs = example_field_def example_world_def example_ids_def no_options_def
  internalStack_def field_of_def promise_of_def world_of_def

lemma example_field_eval:
  "field_of example_field = ''field_x''"
  "promise_of example_field = 0"
  "fieldValidators (world_of example_field) ''field_x'' = Some text_defaultCustomValidator"
  "listeners (world_of example_field) (eventId ''s1'' ''field_x'' ''resolve'') = [Waiter (CbDestroy True ''field_x'' ''s1'') 0 (\<lambda>v. v)]"
  "settled (world_of example_field) 0 = None"
  by (simp_all add: example_defs text_def renderFieldInForm_def prims or_default_def Let_def eventId_def)

lemma example_unvalidated_eval:
  "fieldValidators example_unvalidated ''field_x'' = None"
  "listeners example_unvalidated (eventId ''s1'' ''field_x'' ''resolve'') = [Waiter (CbDestroy True ''field_x'' ''s1'') 0 (\<lambda>v. v)]"
  "settled example_unvalidated 0 = None"
  by (simp_all add: example_unvalidated_def example_defs text_def renderFieldInForm_def prims
      or_default_def Let_def eventId_def on_message_def on_resolve_def msg_resolve_def emit_def
      text_defaultCustomValidator_def eventId_of_def emit_on_def)

lemma accepted_resolve:
  assumes "fieldValidators w fid = Some v" and "v x = JBool True"
    and "listeners w (eventId sid fid ''resolve'') = [Waiter cb p k]"
    and "settled w p = None"
  shows "settled (on_message (msg_resolve sid fid x) w) = (settled w)(p \<mapsto> k x)"
    and "fieldValidators (on_message (msg_resolve sid fid x) w) = (fieldValidators w)(fid := None)"
    and "trace (on_message (msg_resolve sid fid x) w) =
           trace w @ [Send (msg_warn (JBool True) (JStr fid) (JStr sid)), DeleteValidator (JStr fid),
                      Emit (eventId sid fid ''resolve'') x] @ callback_effects cb @ [Resolve p x]"
    and "watchers (on_message (msg_resolve sid fid x) w) = watchers w"
    and "promises (on_message (msg_resolve sid fid x) w) = promises w"
    and "listeners (on_message (msg_resolve sid fid x) w) =
           (case cb of CbUnsubscribe pk \<Rightarrow> (listeners w)(eventId sid fid ''resolve'' := [], pk := [])
            | _ \<Rightarrow> (listeners w)(eventId sid fid ''resolve'' := []))"
  using assms
  by (simp_all add: on_message_accept emit_waiter_fields fieldValidators_delete_def log_def ws_send_def
      split: callback.splits)

lemma rejected_resolve:
  assumes "fieldValidators w fid = Some v" and "v x \<noteq> JBool True"
  shows "settled (on_message (msg_resolve sid fid x) w) = settled w"
    and "fieldValidators (on_message (msg_resolve sid fid x) w) = fieldValidators w"
    and "trace (on_message (msg_resolve sid fid x) w) =
           trace w @ [Send (msg_warn (v x) (JStr fid) (JStr sid))]"
    and "watchers (on_message (msg_resolve sid fid x) w) = watchers w"
    and "promises (on_message (msg_resolve sid fid x) w) = promises w"
    and "listeners (on_message (msg_resolve sid fid x) w) = listeners w"
  using assms
  by (simp_all add: on_message_reject log_def ws_send_def)

lemma fire_waiter_warn:
  assumes "is_waiter l"
  shows "filter (is_action ''warn'') (sent (fire key x l w)) = filter (is_action ''warn'') (sent w)"
proof -
  from assms obtain cb p k where l: "l = Waiter cb p k" by (cases l) simp_all
  have "trace (fire key x l w) = trace w @ callback_effects cb @ [Resolve p x]"
    by (simp add: l run_callback_fields resolve_def log_def removeListener_def split: option.splits)
  then show ?thesis
    by (simp add: sent_def sent_of_append callback_sends_no_warn)
qed

lemma run_listeners_waiters_warn:
  assumes "list_all is_waiter ls"
  shows "filter (is_action ''warn'') (sent (run_listeners key x ls w))
           = filter (is_action ''warn'') (sent w)"
  using assms by (induction ls arbitrary: w) (simp_all add: fire_waiter_warn)

lemma emit_waiters_warn:
  assumes "list_all is_waiter (listeners w key)"
  shows "filter (is_action ''warn'') (sent (emit key x w)) = filter (is_action ''warn'') (sent w)"
  using run_listeners_waiters_warn[OF assms, of key x "log (Emit key x) w"]
  by (simp add: emit_def sent_def log_def sent_of_append)

lemma emit_nobody:
  assumes "listeners w key = []"
  shows "settled (emit key x w) = settled w" and "last (trace (emit key x w)) = Emit key x"
    and "listeners (emit key x w) = listeners w"
  using assms by (simp_all add: emit_no_listeners log_def)

section \<open>Resolve events\<close>

text \<open>
  C9. An inbound \<open>resolve\<close> for a field that has no registered validator wakes the
  waiter of its (session, field) key with the submitted value, whatever that value is:
  the operation returns it (through its continuation), the wait is resolved with the raw
  value, and no \<open>warn\<close> message is sent.
\<close>

theorem resolve_without_validator:
  assumes "fieldValidators w fid = None"
    and "listeners w (eventId sid fid ''resolve'') = [Waiter cb p k]"
    and "settled w p = None"
  shows "settled (on_message (msg_resolve sid fid x) w) p = Some (k x) \<and>
         last (trace (on_message (msg_resolve sid fid x) w)) = Resolve p x \<and>
         filter (is_action ''warn'') (sent (on_message (msg_resolve sid fid x) w))
           = filter (is_action ''warn'') (sent w)"
  using assms
  by (simp add: on_message_unvalidated emit_waiter_fields fieldValidators_delete_def log_def
      sent_def sent_of_append callback_sends_no_warn)

theorem resolve_without_validator_witness:
  "fieldValidators example_unvalidated ''field_x'' = None \<and>
   listeners example_unvalidated (eventId ''s1'' ''field_x'' ''resolve'')
     = [Waiter (CbDestroy True ''field_x'' ''s1'') 0 (\<lambda>v. v)] \<and>
   settled example_unvalidated 0 = None \<and>
   settled (on_message (msg_resolve ''s1'' ''field_x'' (JStr [])) example_unvalidated) 0 = Some (JStr [])"
  using resolve_without_validator[OF example_unvalidated_eval, of "JStr []"] example_unvalidated_eval
  by simp

text \<open>
  C1, as the second variant of the handler has it. For an inbound \<open>resolve\<close> whose field
  has a registered validator, exactly one \<open>warn\<close> message is sent, carrying the
  validator's answer, whether that answer is \<open>true\<close> or a reason. When the answer is
  not \<open>true\<close> the validator map, the settled operations and the listeners are unchanged.
  When it is \<open>true\<close> the validator entry is removed and the resolve event is emitted on
  the (session, field) key of the message: the waiter registered on that key is woken
  with the submitted value, and when nobody waits on that key (the session of the
  message is not the field's) the entry is removed all the same and nobody is woken.
  The listeners on a resolve key are waiters in every reachable world
  (\<open>listeners_disciplined\<close>).
\<close>

theorem validated_resolve:
  assumes "fieldValidators w fid = Some v"
    and "list_all is_waiter (listeners w (eventId sid fid ''resolve''))"
  shows "filter (is_action ''warn'') (sent (on_message (msg_resolve sid fid x) w))
           = filter (is_action ''warn'') (sent w) @ [msg_warn (v x) (JStr fid) (JStr sid)] \<and>
         (v x \<noteq> JBool True \<longrightarrow>
            fieldValidators (on_message (msg_resolve sid fid x) w) = fieldValidators w \<and>
            settled (on_message (msg_resolve sid fid x) w) = settled w \<and>
            listeners (on_message (msg_resolve sid fid x) w) = listeners w) \<and>
         (v x = JBool True \<longrightarrow>
            fieldValidators (on_message (msg_resolve sid fid x) w) = (fieldValidators w)(fid := None) \<and>
            (\<forall>cb p k. listeners w (eventId sid fid ''resolve'') = [Waiter cb p k] \<and> settled w p = None
               \<longrightarrow> settled (on_message (msg_resolve sid fid x) w) p = Some (k x) \<and>
                   last (trace (on_message (msg_resolve sid fid x) w)) = Resolve p x) \<and>
            (listeners w (eventId sid fid ''resolve'') = []
               \<longrightarrow> settled (on_message (msg_resolve sid fid x) w) = settled w \<and>
                   last (trace (on_message (msg_resolve sid fid x) w))
                     = Emit (eventId sid fid ''resolve'') x))"
proof (cases "v x = JBool True")
  case False
  with assms(1) show ?thesis
    by (simp add: rejected_resolve sent_def sent_of_append is_warn_msg_warn)
next
  case True
  let ?w0 = "fieldValidators_delete (JStr fid) (ws_send (msg_warn (JBool True) (JStr fid) (JStr sid)) w)"
  have eq: "on_message (msg_resolve sid fid x) w = emit (eventId sid fid ''resolve'') x ?w0"
    using on_message_accept[OF assms(1) True] .
  have l0: "listeners ?w0 = listeners w" and s0: "settled ?w0 = settled w"
    and f0: "fieldValidators ?w0 = (fieldValidators w)(fid := None)"
    and t0: "sent ?w0 = sent w @ [msg_warn (JBool True) (JStr fid) (JStr sid)]"
    by (simp_all add: prims sent_of_append)
  have warn: "filter (is_action ''warn'') (sent (on_message (msg_resolve sid fid x) w))
           = filter (is_action ''warn'') (sent w) @ [msg_warn (v x) (JStr fid) (JStr sid)]"
    using emit_waiters_warn[of ?w0 "eventId sid fid ''resolve''" x] assms(2) l0 t0 True
    by (simp add: eq is_warn_msg_warn)
  have fv: "fieldValidators (on_message (msg_resolve sid fid x) w) = (fieldValidators w)(fid := None)"
    by (simp add: eq emit_frame f0)
  have one: "settled (on_message (msg_resolve sid fid x) w) p = Some (k x) \<and>
             last (trace (on_message (msg_resolve sid fid x) w)) = Resolve p x"
    if "listeners w (eventId sid fid ''resolve'') = [Waiter cb p k]" "settled w p = None" for cb p k
    using accepted_resolve(1,3)[OF assms(1) True that] by simp
  have none: "settled (on_message (msg_resolve sid fid x) w) = settled w \<and>
              last (trace (on_message (msg_resolve sid fid x) w)) = Emit (eventId sid fid ''resolve'') x"
    if "listeners w (eventId sid fid ''resolve'') = []"
    using emit_nobody(1,2)[of ?w0 "eventId sid fid ''resolve''" x] that l0 s0 by (simp add: eq)
  show ?thesis using True warn fv one none by blast
qed


theorem validated_resolve_witness:
  "fieldValidators (world_of example_field) ''field_x'' = Some text_defaultCustomValidator \<and>
   list_all is_waiter (listeners (world_of example_field) (eventId ''s1'' ''field_x'' ''resolve'')) \<and>
   text_defaultCustomValidator (JStr ''Hello'') = JBool True \<and>
   filter (is_action ''warn'')
     (sent (on_message (msg_resolve ''s1'' ''field_x'' (JStr ''Hello'')) (world_of example_field)))
     = filter (is_action ''warn'') (sent (world_of example_field))
       @ [msg_warn (JBool True) (JStr ''field_x'') (JStr ''s1'')] \<and>
   fieldValidators (on_message (msg_resolve ''s1'' ''field_x'' (JStr ''Hello'')) (world_of example_field))
     ''field_x'' = None \<and>
   settled (on_message (msg_resolve ''s1'' ''field_x'' (JStr ''Hello'')) (world_of example_field)) 0
     = Some (JStr ''Hello'') \<and>
   listeners (world_of example_field) (eventId ''s2'' ''field_x'' ''resolve'') = [] \<and>
   fieldValidators (on_message (msg_resolve ''s2'' ''field_x'' (JStr ''Hello'')) (world_of example_field))
     ''field_x'' = None \<and>
   settled (on_message (msg_resolve ''s2'' ''field_x'' (JStr ''Hello'')) (world_of example_field))
     = settled (world_of example_field)"
proof -
  have h: "list_all is_waiter (listeners (world_of example_field) (eventId ''s1'' ''field_x'' ''resolve''))"
    by (simp add: example_field_eval)
  have n: "listeners (world_of example_field) (eventId ''s2'' ''field_x'' ''resolve'') = []"
    by (simp add: example_defs text_def renderFieldInForm_def prims or_default_def Let_def eventId_def)
  then have h': "list_all is_waiter (listeners (world_of example_field) (eventId ''s2'' ''field_x'' ''resolve''))"
    by simp
  have v: "text_defaultCustomValidator (JStr ''Hello'') = JBool True"
    by (simp add: text_defaultCustomValidator_def)
  show ?thesis
    using validated_resolve[OF example_field_eval(3) h, of "JStr ''Hello''"]
      validated_resolve[OF example_field_eval(3) h', of "JStr ''Hello''"]
      example_field_eval h n v
    by simp
qed

text \<open>
  C1 as stated fails on the second variant: the default validator of a text field answers
  \<open>true\<close> for \<open>Hello\<close>, and a \<open>warn\<close> message is sent all the same (followed by the
  \<open>destroy\<close> of the standalone field).
\<close>

theorem warn_sent_on_success:
  "fieldValidators (world_of example_field) ''field_x'' = Some text_defaultCustomValidator \<and>
   text_defaultCustomValidator (JStr ''Hello'') = JBool True \<and>
   sent (on_message (msg_resolve ''s1'' ''field_x'' (JStr ''Hello'')) (world_of example_field))
     = sent (world_of example_field)
       @ [msg_warn (JBool True) (JStr ''field_x'') (JStr ''s1''), msg_destroy ''field_x'' ''s1'']"
proof -
  have "text_defaultCustomValidator (JStr ''Hello'') = JBool True"
    by (simp add: text_defaultCustomValidator_def)
  then show ?thesis
    using accepted_resolve(3)[OF example_field_eval(3) _ example_field_eval(4,5), of "JStr ''Hello''" ]
      example_field_eval(3)
    by (simp add: sent_def sent_of_append)
qed

text \<open>
  The first variant of the handler sends the \<open>warn\<close> exactly when the answer is not
  \<open>true\<close>.
\<close>

lemma first_variant_warn_iff:
  assumes "fieldValidators w fid = Some v"
    and "listeners w (fid @ '':'' @ sid) = [Waiter cb p k]"
    and "settled w p = None"
  shows "filter (is_action ''warn'') (sent (on_message_v1 (msg_resolve sid fid x) w))
           = filter (is_action ''warn'') (sent w)
             @ (if v x = JBool True then [] else [msg_warn (v x) (JStr fid) (JStr sid)])"
  using assms
  by (simp add: on_message_v1_def on_resolve_v1_def msg_resolve_def fieldValidators_get_def Let_def
      eventName_v1_def emit_on_def emit_waiter_fields fieldValidators_delete_def log_def ws_send_def sent_def sent_of_append
      callback_sends_no_warn is_warn_msg_warn)

lemma example_field_other_session:
  "listeners (world_of example_field) (eventId ''s2'' ''field_x'' ''resolve'') = []"
  by (simp add: example_defs text_def renderFieldInForm_def prims or_default_def Let_def eventId_def)

text \<open>
  C4, as the code has it. A \<open>resolve\<close> for the field with a value the registered
  validator rejects, under whatever session, produces exactly one message, the
  \<open>warn\<close>, leaves the wait unsatisfied and the validator in place. A following
  \<open>resolve\<close> for the same field under the field's own session with a value the
  validator accepts resolves the wait with that value; under a session on whose key
  nobody waits it removes the validator and leaves the wait unsatisfied.
\<close>

theorem reject_then_accept:
  assumes "fieldValidators w fid = Some v"
    and "listeners w (eventId sid fid ''resolve'') = [Waiter cb p k]"
    and "settled w p = None"
    and "v bad \<noteq> JBool True" and "v good = JBool True"
  shows "sent (on_message (msg_resolve sid1 fid bad) w)
           = sent w @ [msg_warn (v bad) (JStr fid) (JStr sid1)] \<and>
         settled (on_message (msg_resolve sid1 fid bad) w) p = None \<and>
         fieldValidators (on_message (msg_resolve sid1 fid bad) w) fid = Some v \<and>
         settled (on_message (msg_resolve sid fid good) (on_message (msg_resolve sid1 fid bad) w)) p
           = Some (k good) \<and>
         last (trace (on_message (msg_resolve sid fid good) (on_message (msg_resolve sid1 fid bad) w)))
           = Resolve p good \<and>
         (listeners w (eventId sid2 fid ''resolve'') = [] \<longrightarrow>
            settled (on_message (msg_resolve sid2 fid good) (on_message (msg_resolve sid1 fid bad) w)) p
              = None \<and>
            fieldValidators
              (on_message (msg_resolve sid2 fid good) (on_message (msg_resolve sid1 fid bad) w)) fid
              = None)"
proof -
  let ?w1 = "on_message (msg_resolve sid1 fid bad) w"
  have 1: "fieldValidators ?w1 fid = Some v" "settled ?w1 p = None"
    "listeners ?w1 = listeners w"
    "trace ?w1 = trace w @ [Send (msg_warn (v bad) (JStr fid) (JStr sid1))]"
    using assms by (simp_all add: rejected_resolve)
  have same: "settled (on_message (msg_resolve sid fid good) ?w1) p = Some (k good) \<and>
      last (trace (on_message (msg_resolve sid fid good) ?w1)) = Resolve p good"
    using accepted_resolve(1,3)[OF 1(1) assms(5) _ 1(2), of sid cb k] 1(3) assms(2) by simp
  have other: "settled (on_message (msg_resolve sid2 fid good) ?w1) p = None \<and>
      fieldValidators (on_message (msg_resolve sid2 fid good) ?w1) fid = None"
    if "listeners w (eventId sid2 fid ''resolve'') = []"
  proof -
    let ?w0 = "fieldValidators_delete (JStr fid)
                 (ws_send (msg_warn (JBool True) (JStr fid) (JStr sid2)) ?w1)"
    have eq: "on_message (msg_resolve sid2 fid good) ?w1 = emit (eventId sid2 fid ''resolve'') good ?w0"
      using on_message_accept[OF 1(1) assms(5)] .
    have "listeners ?w0 (eventId sid2 fid ''resolve'') = []" "settled ?w0 = settled ?w1"
      "fieldValidators ?w0 fid = None"
      using that 1(3) by (simp_all add: prims)
    then show ?thesis
      using emit_nobody(1)[of ?w0 "eventId sid2 fid ''resolve''" good] 1(2)
      by (simp add: eq emit_frame)
  qed
  show ?thesis using 1 same other by (simp add: sent_def sent_of_append)
qed

theorem reject_then_accept_witness:
  "text_defaultCustomValidator (JStr []) \<noteq> JBool True \<and>
   text_defaultCustomValidator (JStr ''Hello'') = JBool True \<and>
   listeners (world_of example_field) (eventId ''s2'' ''field_x'' ''resolve'') = [] \<and>
   sent (on_message (msg_resolve ''s1'' ''field_x'' (JStr [])) (world_of example_field))
     = sent (world_of example_field) @ [msg_warn (JStr ''Required'') (JStr ''field_x'') (JStr ''s1'')] \<and>
   settled (on_message (msg_resolve ''s1'' ''field_x'' (JStr ''Hello''))
      (on_message (msg_resolve ''s1'' ''field_x'' (JStr [])) (world_of example_field))) 0
     = Some (JStr ''Hello'') \<and>
   settled (on_message (msg_resolve ''s2'' ''field_x'' (JStr ''Hello''))
      (on_message (msg_resolve ''s1'' ''field_x'' (JStr [])) (world_of example_field))) 0
     = None"
proof -
  have a: "text_defaultCustomValidator (JStr []) \<noteq> JBool True"
    and b: "text_defaultCustomValidator (JStr ''Hello'') = JBool True"
    by (simp_all add: text_defaultCustomValidator_def)
  show ?thesis
    using reject_then_accept[OF example_field_eval(3,4,5) a b, of "''s1''" "''s2''"] a b
      example_field_other_session
    by (simp add: text_defaultCustomValidator_def)
qed

text \<open>
  C4 as stated fails: the claim identifies the second message by the field alone. After
  the empty submission has been rejected, a \<open>resolve\<close> for the same field with the
  valid value \<open>Hello\<close> under the session \<open>s2\<close> does not resolve the wait; it removes
  the validator.
\<close>

theorem valid_resolve_under_other_session:
  "fieldValidators example_rejected ''field_x'' = Some text_defaultCustomValidator \<and>
   text_defaultCustomValidator (JStr ''Hello'') = JBool True \<and>
   settled example_rejected 0 = None \<and>
   settled (on_message (msg_resolve ''s2'' ''field_x'' (JStr ''Hello'')) example_rejected) 0 = None \<and>
   fieldValidators (on_message (msg_resolve ''s2'' ''field_x'' (JStr ''Hello'')) example_rejected)
     ''field_x'' = None"
proof -
  have a: "text_defaultCustomValidator (JStr []) \<noteq> JBool True"
    and b: "text_defaultCustomValidator (JStr ''Hello'') = JBool True"
    by (simp_all add: text_defaultCustomValidator_def)
  note r = rejected_resolve[OF example_field_eval(3) a, of "''s1''"]
  have 1: "fieldValidators example_rejected ''field_x'' = Some text_defaultCustomValidator"
    "settled example_rejected 0 = None"
    "listeners example_rejected (eventId ''s2'' ''field_x'' ''resolve'') = []"
    using r example_field_eval example_field_other_session by (simp_all add: example_rejected_def)
  let ?w0 = "fieldValidators_delete (JStr ''field_x'')
                 (ws_send (msg_warn (JBool True) (JStr ''field_x'') (JStr ''s2'')) example_rejected)"
  have eq: "on_message (msg_resolve ''s2'' ''field_x'' (JStr ''Hello'')) example_rejected
              = emit (eventId ''s2'' ''field_x'' ''resolve'') (JStr ''Hello'') ?w0"
    using on_message_accept[OF 1(1) b] .
  have "listeners ?w0 (eventId ''s2'' ''field_x'' ''resolve'') = []" "settled ?w0 = settled example_rejected"
    "fieldValidators ?w0 ''field_x'' = None"
    using 1(3) by (simp_all add: prims)
  then show ?thesis
    using emit_nobody(1)[of ?w0 "eventId ''s2'' ''field_x'' ''resolve''" "JStr ''Hello''"] 1 b
    by (simp add: eq emit_frame)
qed

section \<open>Field operations\<close>

lemma invoke_started_of:
  "started sid st operation w (field_of (invoke sid st operation w))
     (promise_of (invoke sid st operation w)) (world_of (invoke sid st operation w))"
  by (rule invoke_started) (simp add: field_of_def promise_of_def world_of_def)

lemma registered_validator:
  "fieldValidators (world_of (invoke sid st operation w)) (field_of (invoke sid st operation w))
     = Some (validator_of operation)"
  using invoke_started_of[of sid st operation w] by (simp add: started_def)

text \<open>
  C7. When the caller supplies no validator, \<open>text\<close>, \<open>number\<close> and \<open>email\<close>
  register their default validators. The default of \<open>text\<close> accepts exactly the
  non-empty strings, the default of \<open>number\<close> exactly the numbers, and the default of
  \<open>email\<close> exactly the strings that contain \<open>@\<close>; every other input is rejected
  with a reason.
\<close>

theorem default_validators:
  assumes "customValidator opts = None"
  shows "fieldValidators (world_of (text sid st label opts w)) (field_of (text sid st label opts w))
           = Some text_defaultCustomValidator \<and>
         (\<forall>input. text_defaultCustomValidator input =
            (if (\<exists>s. input = JStr s \<and> s \<noteq> []) then JBool True
             else if is_string input then JStr ''Required'' else JStr ''Expected string'')) \<and>
         fieldValidators (world_of (number sid st label opts w)) (field_of (number sid st label opts w))
           = Some number_defaultCustomValidator \<and>
         (\<forall>input. number_defaultCustomValidator input =
            (if (\<exists>n. input = JNum n) then JBool True else JStr ''Invalid number'')) \<and>
         fieldValidators (world_of (email sid st label opts w)) (field_of (email sid st label opts w))
           = Some email_defaultValidator \<and>
         (\<forall>input. email_defaultValidator input =
            (if (\<exists>s. input = JStr s \<and> CHR ''@'' \<in> set s) then JBool True
             else if is_string input then JStr ''Invalid email address'' else JStr ''Expected string''))"
proof -
  have "fieldValidators (world_of (text sid st label opts w)) (field_of (text sid st label opts w))
           = Some text_defaultCustomValidator"
    using registered_validator[of sid st "OpText label opts" w] assms
    by (simp add: validator_of_def or_default_def)
  moreover have "fieldValidators (world_of (number sid st label opts w)) (field_of (number sid st label opts w))
           = Some number_defaultCustomValidator"
    using registered_validator[of sid st "OpNumber label opts" w] assms
    by (simp add: validator_of_def or_default_def)
  moreover have "fieldValidators (world_of (email sid st label opts w)) (field_of (email sid st label opts w))
           = Some email_defaultValidator"
    using registered_validator[of sid st "OpEmail label opts" w] assms
    by (simp add: validator_of_def or_default_def)
  moreover have "text_defaultCustomValidator input =
            (if (\<exists>s. input = JStr s \<and> s \<noteq> []) then JBool True
             else if is_string input then JStr ''Required'' else JStr ''Expected string'')" for input
    by (cases input) (simp_all add: text_defaultCustomValidator_def)
  moreover have "number_defaultCustomValidator input =
            (if (\<exists>n. input = JNum n) then JBool True else JStr ''Invalid number'')" for input
    by (cases input) (simp_all add: number_defaultCustomValidator_def)
  moreover have "email_defaultValidator input =
            (if (\<exists>s. input = JStr s \<and> CHR ''@'' \<in> set s) then JBool True
             else if is_string input then JStr ''Invalid email address'' else JStr ''Expected string'')" for input
    by (cases input) (simp_all add: email_defaultValidator_def js_or_def)
  ultimately show ?thesis by blast
qed

theorem default_validators_witness:
  "customValidator no_options = None \<and>
   fieldValidators (world_of (text ''s1'' True ''Note'' no_options example_world))
      (field_of (text ''s1'' True ''Note'' no_options example_world)) = Some text_defaultCustomValidator \<and>
   text_defaultCustomValidator (JStr []) = JStr ''Required'' \<and>
   text_defaultCustomValidator (JNum 3) = JStr ''Expected string'' \<and>
   text_defaultCustomValidator (JStr ''a'') = JBool True \<and>
   number_defaultCustomValidator (JStr ''3'') = JStr ''Invalid number'' \<and>
   number_defaultCustomValidator (JNum 3) = JBool True \<and>
   email_defaultValidator (JStr ''a.b'') = JStr ''Invalid email address'' \<and>
   email_defaultValidator (JStr ''a@b'') = JBool True"
proof -
  have h: "customValidator no_options = None" by (simp add: no_options_def)
  show ?thesis
    using default_validators[OF h, of "''s1''" True "''Note''" example_world] h
    by simp
qed

lemma after_render_sent:
  "sent (snd (waitForEvent key cb k (fieldValidators_set fid v w1))) = sent w1"
  by (simp add: prims sent_of_append Let_def)

lemma colorpicker_sent:
  assumes "renderFieldInForm sid
      (AList.update ''inline'' (js_or (obj_get (JObj (plain opts)) ''inline'') (JBool True))
        (AList.update ''label'' (JStr label)
          (AList.update ''type'' (JStr ''colorpicker'') (plain opts)))) w = (fid, w1)"
  shows "sent (world_of (colorpicker sid st label opts w)) = sent w1"
  using assms after_render_sent[of "eventId sid fid ''resolve''" "CbDestroy st fid sid" "\<lambda>v. v" fid
     "or_default (customValidator opts) colorpicker_defaultValidator" w1]
  by (simp add: colorpicker_def world_of_def split: prod.splits)

text \<open>
  C10. The \<open>render\<close> message of \<open>colorpicker\<close> carries \<open>inline: true\<close> whatever
  the caller passed for \<open>inline\<close> (a boolean, by its type, or nothing): \<open>false\<close> is
  replaced by \<open>true\<close>.
\<close>

theorem colorpicker_inline:
  assumes "obj_get (JObj (plain opts)) ''inline'' \<in> {JUndefined, JBool False, JBool True}"
  shows "sent (world_of (colorpicker sid st label opts w))
           = sent w @ [last (sent (world_of (colorpicker sid st label opts w)))] \<and>
         is_action ''render'' (last (sent (world_of (colorpicker sid st label opts w)))) \<and>
         obj_get (last (sent (world_of (colorpicker sid st label opts w)))) ''inline'' = JBool True"
proof -
  define params where "params = AList.update ''inline'' (js_or (obj_get (JObj (plain opts)) ''inline'') (JBool True))
        (AList.update ''label'' (JStr label)
          (AList.update ''type'' (JStr ''colorpicker'') (plain opts)))"
  obtain fid w1 where r: "renderFieldInForm sid params w = (fid, w1)"
    by (cases "renderFieldInForm sid params w")
  from renderFieldInForm_shape(1)[OF r] obtain m where
    m: "trace w1 = trace w @ [Send m]" "is_action ''render'' m"
    and rest: "\<forall>k. k \<noteq> ''sessionId'' \<and> k \<noteq> ''fieldId'' \<and> k \<noteq> ''action''
                 \<longrightarrow> obj_get m k = obj_get (JObj params) k"
    by blast
  from rest[rule_format, of "''inline''"]
  have "obj_get m ''inline'' = obj_get (JObj params) ''inline''"
    by simp
  then have inline: "obj_get m ''inline'' = JBool True"
    using assms by (auto simp: params_def update_conv' js_or_def)
  have "sent (world_of (colorpicker sid st label opts w)) = sent w1"
    using r unfolding params_def by (rule colorpicker_sent)
  then have "sent (world_of (colorpicker sid st label opts w)) = sent w @ [m]"
    using m(1) by (simp add: sent_def sent_of_append)
  then show ?thesis using m(2) inline by simp
qed

theorem colorpicker_inline_witness:
  "obj_get (JObj (plain \<lparr>plain = [(''inline'', JBool False)], customValidator = None\<rparr>)) ''inline''
     \<in> {JUndefined, JBool False, JBool True} \<and>
   obj_get (last (sent (world_of (colorpicker ''s1'' True ''Colour''
       \<lparr>plain = [(''inline'', JBool False)], customValidator = None\<rparr> example_world)))) ''inline'' = JBool True"
  using colorpicker_inline[of "\<lparr>plain = [(''inline'', JBool False)], customValidator = None\<rparr>"
      "''s1''" True "''Colour''" example_world]
  by simp

lemma plain_stepwise:
  assumes "renderFieldInForm sid params w = (fid, w0)"
    and "waitForEvent (eventId sid fid ''resolve'') (CbDestroy st fid sid) (\<lambda>v. v)
           (fieldValidators_set fid (validator_of operation) w0) = (p, w1)"
    and "unsubscribing operation = False" and "continuation_of operation = (\<lambda>v. v)"
  shows "stepwise sid st operation w fid p w1"
  unfolding stepwise_def using assms by (auto simp: callback_of_def)

lemma patched_stepwise:
  assumes "renderFieldInForm sid params w = (fid, w0)"
    and "waitForEvent (eventId sid fid ''resolve'') cb k
           (fieldValidators_set fid (validator_of operation)
              (emitter_on (eventId sid fid ''patch'') l w0)) = (p, w1)"
    and "callback_of st sid fid operation = cb" and "continuation_of operation = k"
  shows "stepwise sid st operation w fid p w1"
  unfolding stepwise_def using assms by blast

lemma invoke_stepwise:
  assumes "invoke sid st operation w = (fid, p, w1)"
  shows "stepwise sid st operation w fid p w1"
proof (cases operation)
  case (OpText label opts)
  with assms show ?thesis
    by (auto simp: text_def split: prod.splits
        intro: plain_stepwise[where operation="OpText label opts", unfolded validator_of_def, simplified])
next
  case (OpNumber label opts)
  with assms show ?thesis
    by (auto simp: number_def split: prod.splits
        intro: plain_stepwise[where operation="OpNumber label opts", unfolded validator_of_def, simplified])
next
  case (OpCurrency label opts)
  with assms show ?thesis
    by (auto simp: currency_def split: prod.splits
        intro: plain_stepwise[where operation="OpCurrency label opts", unfolded validator_of_def, simplified])
next
  case (OpMarkdown label opts)
  with assms show ?thesis
    by (auto simp: markdown_def split: prod.splits
        intro: plain_stepwise[where operation="OpMarkdown label opts", unfolded validator_of_def, simplified])
next
  case (OpRichText label opts)
  with assms show ?thesis
    by (auto simp: richText_def split: prod.splits
        intro: plain_stepwise[where operation="OpRichText label opts", unfolded validator_of_def, simplified])
next
  case (OpSlider label opts)
  with assms show ?thesis
    by (auto simp: slider_def split: prod.splits
        intro: plain_stepwise[where operation="OpSlider label opts", unfolded validator_of_def, simplified])
next
  case (OpEmail label opts)
  with assms show ?thesis
    by (auto simp: email_def split: prod.splits
        intro: plain_stepwise[where operation="OpEmail label opts", unfolded validator_of_def, simplified])
next
  case (OpCheckbox label opts)
  with assms show ?thesis
    by (auto simp: checkbox_def split: prod.splits
        intro: plain_stepwise[where operation="OpCheckbox label opts", unfolded validator_of_def, simplified])
next
  case (OpCheckboxes label items opts)
  with assms show ?thesis
    by (auto simp: checkboxes_def split: prod.splits
        intro: plain_stepwise[where operation="OpCheckboxes label items opts", unfolded validator_of_def, simplified])
next
  case (OpRadio label items opts)
  with assms show ?thesis
    by (auto simp: radio_def split: prod.splits
        intro: plain_stepwise[where operation="OpRadio label items opts", unfolded validator_of_def, simplified])
next
  case (OpSelect label items opts)
  with assms show ?thesis
    by (auto simp: select_def split: prod.splits
        intro: plain_stepwise[where operation="OpSelect label items opts", unfolded validator_of_def, simplified])
next
  case (OpDate label opts)
  with assms show ?thesis
    by (auto simp: date_def split: prod.splits
        intro: plain_stepwise[where operation="OpDate label opts", unfolded validator_of_def, simplified])
next
  case (OpDatetimeLocal label opts)
  with assms show ?thesis
    by (auto simp: datetimeLocal_def split: prod.splits
        intro: plain_stepwise[where operation="OpDatetimeLocal label opts", unfolded validator_of_def, simplified])
next
  case (OpTime label opts)
  with assms show ?thesis
    by (auto simp: time_def split: prod.splits
        intro: plain_stepwise[where operation="OpTime label opts", unfolded validator_of_def, simplified])
next
  case (OpColorpicker label opts)
  with assms show ?thesis
    by (auto simp: colorpicker_def split: prod.splits
        intro: plain_stepwise[where operation="OpColorpicker label opts", unfolded validator_of_def, simplified])
next
  case (OpAutocomplete label query opts)
  with assms show ?thesis
    by (auto simp: autocomplete_def split: prod.splits
        intro: patched_stepwise[where operation="OpAutocomplete label query opts",
                 unfolded validator_of_def callback_of_def, simplified])
next
  case (OpAddress label key pick opts)
  show ?thesis
  proof (cases pick)
    case None
    with assms OpAddress show ?thesis
      by (auto simp: address_def split: prod.splits
          intro: patched_stepwise[where operation="OpAddress label key None opts",
                   unfolded validator_of_def callback_of_def, simplified])
  next
    case (Some f)
    with assms OpAddress show ?thesis
      by (auto simp: address_def split: prod.splits
          intro: patched_stepwise[where operation="OpAddress label key (Some f) opts",
                   unfolded validator_of_def callback_of_def, simplified])
  qed
next
  case (OpTable label query opts)
  with assms show ?thesis
    by (cases "truthy (obj_get (JObj (plain opts)) ''filterable'')")
       (auto simp: table_def split: prod.splits
        intro: patched_stepwise[where operation="OpTable label query opts",
                 unfolded validator_of_def callback_of_def, simplified]
               plain_stepwise[where operation="OpTable label query opts",
                 unfolded validator_of_def, simplified])
qed

lemma eventId_resolve_patch: "eventId s f ''resolve'' \<noteq> eventId s' f' ''patch''"
proof
  assume "eventId s f ''resolve'' = eventId s' f' ''patch''"
  then have "last (eventId s f ''resolve'') = last (eventId s' f' ''patch'')" by simp
  then show False by (simp add: eventId_def)
qed

text \<open>
  C6. Every field operation first sends the \<open>render\<close> message of its field and, for
  some kinds, subscribes to patch events; in the world reached then, the validator map
  and the listeners of the field's resolve event are still as they were. It then
  registers the validator under the field's identifier and only then calls
  \<open>waitForEvent\<close> on the field's resolve event: when the wait has begun the validator
  is in the map and the waiter is the last listener on the key.
\<close>

theorem render_validator_wait_order:
  assumes "invoke sid st operation w = (fid, p, w1)"
  shows "\<exists>r subscriptions rendered.
           trace rendered = trace w @ Send r # subscriptions \<and>
           is_action ''render'' r \<and> obj_get r ''fieldId'' = JStr fid \<and>
           list_all is_on subscriptions \<and>
           fieldValidators rendered = fieldValidators w \<and>
           listeners rendered (eventId sid fid ''resolve'') = listeners w (eventId sid fid ''resolve'') \<and>
           waitForEvent (eventId sid fid ''resolve'') (callback_of st sid fid operation)
             (continuation_of operation)
             (fieldValidators_set fid (validator_of operation) rendered) = (p, w1) \<and>
           trace w1 = trace w @ Send r # subscriptions
                        @ [SetValidator fid, Once (eventId sid fid ''resolve'')] \<and>
           fieldValidators w1 fid = Some (validator_of operation) \<and>
           listeners w1 (eventId sid fid ''resolve'')
             = listeners w (eventId sid fid ''resolve'')
               @ [Waiter (callback_of st sid fid operation) p (continuation_of operation)]"
proof -
  from invoke_stepwise[OF assms] obtain params w0 rendered where
    r: "renderFieldInForm sid params w = (fid, w0)"
    and s: "rendered = w0 \<or> (\<exists>l. rendered = emitter_on (eventId sid fid ''patch'') l w0)"
    and e: "waitForEvent (eventId sid fid ''resolve'') (callback_of st sid fid operation)
          (continuation_of operation)
          (fieldValidators_set fid (validator_of operation) rendered) = (p, w1)"
    unfolding stepwise_def by blast
  from renderFieldInForm_shape[OF r] obtain m where
    m: "trace w0 = trace w @ [Send m]" "is_action ''render'' m" "obj_get m ''fieldId'' = JStr fid"
    and f: "fieldValidators w0 = fieldValidators w" "listeners w0 = listeners w"
    by blast
  from s obtain subscriptions where
    t: "trace rendered = trace w @ Send m # subscriptions" "list_all is_on subscriptions"
    and f': "fieldValidators rendered = fieldValidators w"
      "listeners rendered (eventId sid fid ''resolve'') = listeners w (eventId sid fid ''resolve'')"
    using m(1) f eventId_resolve_patch[of sid fid sid fid]
    by (auto simp: prims)
  have w1: "trace w1 = trace w @ Send m # subscriptions
                        @ [SetValidator fid, Once (eventId sid fid ''resolve'')]"
    "fieldValidators w1 fid = Some (validator_of operation)"
    "listeners w1 (eventId sid fid ''resolve'')
             = listeners w (eventId sid fid ''resolve'')
               @ [Waiter (callback_of st sid fid operation) p (continuation_of operation)]"
    using e t(1) f' by (auto simp: prims Let_def)
  show ?thesis
    using t m(2,3) f' e w1 by blast
qed

theorem render_validator_wait_order_witness:
  "invoke ''s1'' True (OpText ''Note'' no_options) example_world
     = (''field_x'', 0, world_of example_field) \<and>
   (\<exists>r subscriptions rendered.
           trace rendered = trace example_world @ Send r # subscriptions \<and>
           is_action ''render'' r \<and> obj_get r ''fieldId'' = JStr ''field_x'' \<and>
           list_all is_on subscriptions \<and>
           fieldValidators rendered = fieldValidators example_world \<and>
           listeners rendered (eventId ''s1'' ''field_x'' ''resolve'')
             = listeners example_world (eventId ''s1'' ''field_x'' ''resolve'') \<and>
           waitForEvent (eventId ''s1'' ''field_x'' ''resolve'')
             (callback_of True ''s1'' ''field_x'' (OpText ''Note'' no_options))
             (continuation_of (OpText ''Note'' no_options))
             (fieldValidators_set ''field_x'' (validator_of (OpText ''Note'' no_options)) rendered)
             = (0, world_of example_field) \<and>
           trace (world_of example_field) = trace example_world @ Send r # subscriptions
                        @ [SetValidator ''field_x'', Once (eventId ''s1'' ''field_x'' ''resolve'')] \<and>
           fieldValidators (world_of example_field) ''field_x''
             = Some (validator_of (OpText ''Note'' no_options)) \<and>
           listeners (world_of example_field) (eventId ''s1'' ''field_x'' ''resolve'')
             = listeners example_world (eventId ''s1'' ''field_x'' ''resolve'')
               @ [Waiter (callback_of True ''s1'' ''field_x'' (OpText ''Note'' no_options)) 0
                    (continuation_of (OpText ''Note'' no_options))])"
proof -
  have h: "invoke ''s1'' True (OpText ''Note'' no_options) example_world
     = (''field_x'', 0, world_of example_field)"
    using example_field_eval(1,2)
    by (simp add: example_field_def field_of_def promise_of_def world_of_def prod_eq_iff)
  show ?thesis using render_validator_wait_order[OF h] h by simp
qed

section \<open>Decoding\<close>





section \<open>Standalone fields\<close>

lemma started_listeners_resolve:
  assumes "started sid st operation w fid p w1"
  shows "listeners w1 (eventId sid fid ''resolve'')
           = listeners w (eventId sid fid ''resolve'')
             @ [Waiter (callback_of st sid fid operation) p (continuation_of operation)]"
  using assms eventId_resolve_patch[of sid fid sid fid] by (simp add: started_def)

lemma started_listeners_patch:
  assumes "started sid st operation w fid p w1"
  shows "listeners w1 (eventId sid fid ''patch'')
           = listeners w (eventId sid fid ''patch'') @ patchers_of sid fid operation"
  using assms eventId_resolve_patch[of sid fid sid fid] by (auto simp: started_def)

lemma started_listeners_other:
  assumes "started sid st operation w fid p w1"
    and "key \<noteq> eventId sid fid ''resolve''" and "key \<noteq> eventId sid fid ''patch''"
  shows "listeners w1 key = listeners w key"
  using assms by (simp add: started_def)

lemma is_destroy_msgs:
  "is_for ''destroy'' fid (msg_destroy fid sid)"
  "\<not> is_for ''destroy'' fid (msg_warn r f s)"
  by (simp_all add: is_for_def is_action_def msg_destroy_def msg_warn_def)

lemma example_text_invoke:
  "invoke ''s1'' True (OpText ''Note'' no_options) example_world = (''field_x'', 0, world_of example_field)"
  using example_field_eval(1,2)
  by (simp add: example_field_def field_of_def promise_of_def world_of_def prod_eq_iff)

lemma example_world_eval:
  "listeners example_world key = []" "settled example_world p = None" "watchers example_world = []"
  "fieldValidators example_world fid = None" "drawn example_world = 0" "promises example_world = 0"
  "trace example_world = [Send msg_updatePeers]" "nanoid_src example_world = example_ids"
  by (simp_all add: example_world_def internalStack_def prims)

lemma example_autocomplete_eval:
  "field_of example_autocomplete = ''field_x''"
  "promise_of example_autocomplete = 0"
  "fieldValidators (world_of example_autocomplete) ''field_x'' = Some autocomplete_defaultValidator"
  "listeners (world_of example_autocomplete) (eventId ''s1'' ''field_x'' ''resolve'')
     = [Waiter (CbUnsubscribe (eventId ''s1'' ''field_x'' ''patch'')) 0 (\<lambda>v. v)]"
  "settled (world_of example_autocomplete) 0 = None"
  "sent (world_of example_autocomplete) =
     [msg_updatePeers,
      JObj [(''type'', JStr ''autocomplete''), (''label'', JStr ''City''), (''action'', JStr ''render''),
            (''fieldId'', JStr ''field_x''), (''sessionId'', JStr ''s1'')]]"
  by (simp_all add: example_autocomplete_def example_defs autocomplete_def renderFieldInForm_def prims
      or_default_def Let_def eventId_def)

text \<open>
  C2, as far as the code does it by design. A standalone operation of any kind whose
  registered validator (the default one when the caller gave none) accepts the submitted
  value returns that value, an address field after applying \<open>pick\<close> when the caller
  gave one; for every kind other than autocomplete and address exactly one \<open>destroy\<close>
  message for the field is sent in response.
\<close>

theorem standalone_submission:
  assumes "invoke sid True operation w = (fid, p, w1)"
    and "listeners w (eventId sid fid ''resolve'') = []"
    and "settled w p = None"
    and "validator_of operation x = JBool True"
  shows "settled (on_message (msg_resolve sid fid x) w1) p = Some (continuation_of operation x) \<and>
         last (trace (on_message (msg_resolve sid fid x) w1)) = Resolve p x \<and>
         (\<not> unsubscribing operation \<longrightarrow>
            filter (is_for ''destroy'' fid) (sent (on_message (msg_resolve sid fid x) w1))
              = filter (is_for ''destroy'' fid) (sent w1) @ [msg_destroy fid sid])"
proof -
  note s = invoke_started[OF assms(1)]
  have v: "fieldValidators w1 fid = Some (validator_of operation)"
    and u: "settled w1 p = None"
    using s assms(3) by (simp_all add: started_def)
  have l: "listeners w1 (eventId sid fid ''resolve'')
           = [Waiter (callback_of True sid fid operation) p (continuation_of operation)]"
    using started_listeners_resolve[OF s] assms(2) by simp
  show ?thesis
    using accepted_resolve(1,3)[OF v assms(4) l u]
    by (simp add: sent_def sent_of_append callback_of_def is_destroy_msgs)
qed

theorem standalone_submission_witness:
  "invoke ''s1'' True (OpText ''Note'' no_options) example_world = (''field_x'', 0, world_of example_field) \<and>
   listeners example_world (eventId ''s1'' ''field_x'' ''resolve'') = [] \<and>
   settled example_world 0 = None \<and>
   validator_of (OpText ''Note'' no_options) (JStr ''Hello'') = JBool True \<and>
   settled (on_message (msg_resolve ''s1'' ''field_x'' (JStr ''Hello'')) (world_of example_field)) 0
     = Some (JStr ''Hello'') \<and>
   filter (is_for ''destroy'' ''field_x'')
      (sent (on_message (msg_resolve ''s1'' ''field_x'' (JStr ''Hello'')) (world_of example_field)))
     = filter (is_for ''destroy'' ''field_x'') (sent (world_of example_field))
       @ [msg_destroy ''field_x'' ''s1'']"
proof -
  have v: "validator_of (OpText ''Note'' no_options) (JStr ''Hello'') = JBool True"
    by (simp add: validator_of_def or_default_def no_options_def text_defaultCustomValidator_def)
  show ?thesis
    using standalone_submission[OF example_text_invoke example_world_eval(1,2) v]
      example_text_invoke example_world_eval(1,2) v
    by simp
qed

lemma example_address_eval:
  "field_of example_address = ''field_x''"
  "promise_of example_address = 0"
  "fieldValidators (world_of example_address) ''field_x'' = Some address_defaultValidator"
  "listeners (world_of example_address) (eventId ''s1'' ''field_x'' ''resolve'')
     = [Waiter (CbUnsubscribe (eventId ''s1'' ''field_x'' ''patch'')) 0
          (\<lambda>result. obj_get result ''description'')]"
  "settled (world_of example_address) 0 = None"
  by (simp_all add: example_address_def example_defs address_def renderFieldInForm_def prims
      or_default_def Let_def eventId_def)

text \<open>
  C2 as stated fails in two places. For autocomplete (and address) the value is accepted
  and returned, and no \<open>destroy\<close> message is sent for the field. For an address field
  with a \<open>pick\<close> function the operation returns the picked part of the submitted value,
  not the value.
\<close>

theorem standalone_claim_fails:
  "autocomplete_defaultValidator (JStr ''Hello'') = JBool True \<and>
   settled (on_message (msg_resolve ''s1'' ''field_x'' (JStr ''Hello'')) (world_of example_autocomplete)) 0
     = Some (JStr ''Hello'') \<and>
   filter (is_for ''destroy'' ''field_x'')
     (sent (on_message (msg_resolve ''s1'' ''field_x'' (JStr ''Hello'')) (world_of example_autocomplete)))
     = [] \<and>
   address_defaultValidator (JObj [(''description'', JStr ''Main St'')]) = JBool True \<and>
   settled (on_message (msg_resolve ''s1'' ''field_x'' (JObj [(''description'', JStr ''Main St'')]))
      (world_of example_address)) 0
     = Some (JStr ''Main St'')"
proof -
  have v: "autocomplete_defaultValidator (JStr ''Hello'') = JBool True"
    by (simp add: autocomplete_defaultValidator_def)
  have v': "address_defaultValidator (JObj [(''description'', JStr ''Main St'')]) = JBool True"
    by (simp add: address_defaultValidator_def)
  show ?thesis
    using accepted_resolve(1,3)[OF example_autocomplete_eval(3) v example_autocomplete_eval(4,5)]
      accepted_resolve(1)[OF example_address_eval(3) v' example_address_eval(4,5)]
      v v' example_autocomplete_eval(6)
    by (simp add: sent_def sent_of_append is_for_def is_action_def msg_warn_def msg_updatePeers_def)
qed

section \<open>Patch subscriptions\<close>

lemma on_message_patch:
  "on_message (msg_inbound_patch sid fid d) w = emit (eventId sid fid ''patch'') d w"
  by (simp add: on_message_def msg_inbound_patch_def Let_def eventId_of_def emit_on_def)

text \<open>
  The callbacks of autocomplete and address remove the patch listener when the wait is
  satisfied: a patch event that arrives afterwards sends nothing.
\<close>

lemma unsubscribed_after_resolve:
  assumes "invoke sid st operation w = (fid, p, w1)"
    and "unsubscribing operation"
    and "listeners w (eventId sid fid ''resolve'') = []"
    and "settled w p = None"
    and "validator_of operation x = JBool True"
  shows "listeners (on_message (msg_resolve sid fid x) w1) (eventId sid fid ''patch'') = [] \<and>
         sent (on_message (msg_inbound_patch sid fid d) (on_message (msg_resolve sid fid x) w1))
           = sent (on_message (msg_resolve sid fid x) w1)"
proof -
  note s = invoke_started[OF assms(1)]
  have v: "fieldValidators w1 fid = Some (validator_of operation)"
    and u: "settled w1 p = None"
    using s assms(4) by (simp_all add: started_def)
  have l: "listeners w1 (eventId sid fid ''resolve'')
           = [Waiter (CbUnsubscribe (eventId sid fid ''patch'')) p (continuation_of operation)]"
    using started_listeners_resolve[OF s] assms(2,3) by (simp add: callback_of_def)
  have "listeners (on_message (msg_resolve sid fid x) w1) (eventId sid fid ''patch'') = []"
    using accepted_resolve(6)[OF v assms(5) l u] by simp
  then show ?thesis
    by (simp add: on_message_patch emit_no_listeners log_def sent_def sent_of_append)
qed

lemma example_table_eval:
  "field_of example_table = ''field_x''"
  "promise_of example_table = 0"
  "fieldValidators (world_of example_table) ''field_x'' = Some table_defaultValidator"
  "listeners (world_of example_table) (eventId ''s1'' ''field_x'' ''resolve'')
     = [Waiter (CbDestroy True ''field_x'' ''s1'') 0 (\<lambda>v. v)]"
  "settled (world_of example_table) 0 = None"
  "listeners (world_of example_table) (eventId ''s1'' ''field_x'' ''patch'')
     = [PatchTable (\<lambda>request. JArr [obj_get request ''query'', obj_get request ''offset'',
                        obj_get request ''pageSize'']) (JNum 10) ''field_x'' ''s1'']"
  "page_offset (world_of example_table) = example_offset"
  by (simp_all add: example_table_def example_defs table_def renderFieldInForm_def prims
      or_default_def Let_def eventId_def js_or_def)

text \<open>
  C3 on a filterable table. The callback of \<open>table\<close> only sends \<open>destroy\<close>; the patch
  listener stays registered. After the field has resolved with \<open>[1]\<close>, an inbound patch
  event for the field (the second page of the rows matching \<open>ab\<close>) still calls the
  query and sends a \<open>patch\<close> message.
\<close>

theorem table_patch_after_resolve:
  "table_defaultValidator (JArr [JNum 1]) = JBool True \<and>
   settled example_table_resolved 0 = Some (JArr [JNum 1]) \<and>
   sent (on_message
           (msg_inbound_patch ''s1'' ''field_x'' (JObj [(''query'', JStr ''ab''), (''page'', JNum 2)]))
           example_table_resolved)
     = sent example_table_resolved
       @ [msg_patch (JArr [JStr ''ab'', JNum 10, JNum 10]) ''field_x'' ''s1'']"
proof -
  have v: "table_defaultValidator (JArr [JNum 1]) = JBool True"
    by (simp add: table_defaultValidator_def)
  note r = accepted_resolve[OF example_table_eval(3) v example_table_eval(4,5)]
  have l: "listeners example_table_resolved (eventId ''s1'' ''field_x'' ''patch'')
     = [PatchTable (\<lambda>request. JArr [obj_get request ''query'', obj_get request ''offset'',
                        obj_get request ''pageSize'']) (JNum 10) ''field_x'' ''s1'']"
    using r(6) example_table_eval(6) eventId_resolve_patch[of "''s1''" "''field_x''" "''s1''" "''field_x''"]
    by (simp add: example_table_resolved_def)
  have o: "page_offset example_table_resolved = example_offset"
    by (simp add: example_table_resolved_def on_message_page_offset example_table_eval(7))
  have "sent (on_message
           (msg_inbound_patch ''s1'' ''field_x'' (JObj [(''query'', JStr ''ab''), (''page'', JNum 2)]))
           example_table_resolved)
     = sent example_table_resolved @ [msg_patch (JArr [JStr ''ab'', JNum 10, JNum 10]) ''field_x'' ''s1'']"
    using l o
    by (simp add: on_message_patch emit_def log_def ws_send_def sent_def sent_of_append
        example_offset_def)
  then show ?thesis using v r(1) by (simp add: example_table_resolved_def)
qed

section \<open>Groups\<close>

lemma eventId_resolve_inj: "eventId s f ''resolve'' = eventId s f' ''resolve'' \<longleftrightarrow> f = f'"
  by (simp add: eventId_def)

lemma settle_groups_pending:
  assumes "watchers w = [(key, ps)]" and "p \<in> set ps" and "settled w p = None"
  shows "settle_groups w = w"
proof -
  have "those (map (settled w) ps) = None"
    using assms(2,3) by (induction ps) (auto split: option.splits)
  then show ?thesis using assms(1) by (simp add: settle_groups_def run_watcher_def)
qed

lemma settle_groups_complete:
  assumes "watchers w = [(key, [pA, pB])]"
    and "settled w pA = Some a" and "settled w pB = Some b"
  shows "settle_groups w = emit key (JArr [a, b]) (w\<lparr>watchers := []\<rparr>)"
  using assms by (simp add: settle_groups_def run_watcher_def)

lemma group_unfold:
  assumes "invoke sid False opA w = (fidA, pA, wA)"
    and "invoke sid False opB wA = (fidB, pB, wB)"
  shows "group sid [opA, opB] w =
           waitForEvent (sid @ '':'' @ ''group_'' @ fst (nanoid wB)) (CbGroupComplete sid) (\<lambda>v. v)
             ((snd (nanoid wB))\<lparr>watchers := watchers (snd (nanoid wB))
                 @ [(sid @ '':'' @ ''group_'' @ fst (nanoid wB), [pA, pB])]\<rparr>)"
  using assms by (simp add: group_def Let_def split: prod.splits)

lemma filter_emitted_on_map_On: "filter (emitted_on key) (map (On \<circ> f) ys) = []"
  by (induction ys) simp_all

lemma filter_emitted_callback: "filter (emitted_on key) (callback_effects cb) = []"
  by (cases cb) simp_all

lemma sent_of_map_On: "sent_of (map (On \<circ> f) ys) = []"
  by (induction ys) simp_all

lemma callback_of_groupComplete:
  "filter (is_action ''groupComplete'') (sent_of (callback_effects (callback_of False sid fid operation))) = []"
  by (simp add: callback_of_def)

lemma is_groupComplete_msgs:
  "is_action ''groupComplete'' (msg_groupComplete sid)"
  "\<not> is_action ''groupComplete'' (msg_warn r f s)"
  by (simp_all add: is_action_def msg_groupComplete_def msg_warn_def)


lemma group_two_fields:
  assumes a: "invoke sid False opA w = (fidA, pA, wA)"
    and b: "invoke sid False opB wA = (fidB, pB, wB)"
    and g: "group sid [opA, opB] w = (gp, w1)"
    and k: "gkey = sid @ '':'' @ ''group_'' @ fst (nanoid wB)"
  shows "pA = promises w" and "pB = Suc (promises w)" and "gp = Suc (Suc (promises w))"
    and "fieldValidators w1 = (fieldValidators w)(fidA \<mapsto> validator_of opA, fidB \<mapsto> validator_of opB)"
    and "settled w1 = settled w"
    and "watchers w1 = watchers w @ [(gkey, [pA, pB])]"
    and "listeners w1 =
           (\<lambda>key. listeners wB key @ (if key = gkey then [Waiter (CbGroupComplete sid) gp (\<lambda>v. v)] else []))"
    and "\<exists>rA rB. is_action ''render'' rA \<and> is_action ''render'' rB \<and>
           trace w1 = trace w
             @ Send rA # map On (map (\<lambda>l. eventId sid fidA ''patch'') (patchers_of sid fidA opA))
             @ [SetValidator fidA, Once (eventId sid fidA ''resolve'')]
             @ Send rB # map On (map (\<lambda>l. eventId sid fidB ''patch'') (patchers_of sid fidB opB))
             @ [SetValidator fidB, Once (eventId sid fidB ''resolve''), Once gkey]"
proof -
  note sA = invoke_started[OF a] and sB = invoke_started[OF b]
  have w1: "(gp, w1) = waitForEvent gkey (CbGroupComplete sid) (\<lambda>v. v)
             ((snd (nanoid wB))\<lparr>watchers := watchers (snd (nanoid wB)) @ [(gkey, [pA, pB])]\<rparr>)"
    using group_unfold[OF a b] g k by simp
  show "pA = promises w" "pB = Suc (promises w)"
    using sA sB by (simp_all add: started_def)
  show "gp = Suc (Suc (promises w))"
    using w1 sA sB by (simp add: started_def prims Let_def)
  show "fieldValidators w1 = (fieldValidators w)(fidA \<mapsto> validator_of opA, fidB \<mapsto> validator_of opB)"
    using w1 sA sB by (simp add: started_def prims Let_def)
  show "settled w1 = settled w"
    using w1 sA sB by (simp add: started_def prims Let_def)
  show "watchers w1 = watchers w @ [(gkey, [pA, pB])]"
    using w1 sA sB by (simp add: started_def prims Let_def)
  show "listeners w1 =
           (\<lambda>key. listeners wB key @ (if key = gkey then [Waiter (CbGroupComplete sid) gp (\<lambda>v. v)] else []))"
    using w1 by (auto simp: prims Let_def fun_eq_iff)
  from sA obtain rA where rA: "is_action ''render'' rA"
    "trace wA = trace w @ Send rA # map On (map (\<lambda>l. eventId sid fidA ''patch'') (patchers_of sid fidA opA))
                      @ [SetValidator fidA, Once (eventId sid fidA ''resolve'')]"
    by (auto simp: started_def)
  from sB obtain rB where rB: "is_action ''render'' rB"
    "trace wB = trace wA @ Send rB # map On (map (\<lambda>l. eventId sid fidB ''patch'') (patchers_of sid fidB opB))
                      @ [SetValidator fidB, Once (eventId sid fidB ''resolve'')]"
    by (auto simp: started_def)
  have "trace w1 = trace wB @ [Once gkey]"
    using w1 by (simp add: prims Let_def)
  with rA rB show "\<exists>rA rB. is_action ''render'' rA \<and> is_action ''render'' rB \<and>
           trace w1 = trace w
             @ Send rA # map On (map (\<lambda>l. eventId sid fidA ''patch'') (patchers_of sid fidA opA))
             @ [SetValidator fidA, Once (eventId sid fidA ''resolve'')]
             @ Send rB # map On (map (\<lambda>l. eventId sid fidB ''patch'') (patchers_of sid fidB opB))
             @ [SetValidator fidB, Once (eventId sid fidB ''resolve''), Once gkey]"
    by auto
qed


lemma accept_listeners_other:
  assumes "ls' = (case callback_of st sid fid operation of
                    CbUnsubscribe pk \<Rightarrow> ls(eventId sid fid ''resolve'' := [], pk := [])
                  | _ \<Rightarrow> ls(eventId sid fid ''resolve'' := []))"
    and "key \<noteq> eventId sid fid ''resolve''" and "key \<noteq> eventId sid fid ''patch''"
  shows "ls' key = ls key"
  using assms by (simp add: callback_of_def)

lemma example_group_A_eval:
  "invoke ''s1'' False (OpText ''A'' no_options) example_world = (''field_x'', 0, world_of example_group_A)"
  "nanoid_src (world_of example_group_A) = example_ids" "drawn (world_of example_group_A) = 1"
  by (simp_all add: example_group_A_def example_world_eval world_of_def text_def
      renderFieldInForm_def prims no_options_def Let_def example_ids_def)

lemma example_group_B_eval:
  "invoke ''s1'' False (OpNumber ''B'' no_options) (world_of example_group_A)
     = (''field_xx'', 1, world_of example_group_B)"
  "fst (nanoid (world_of example_group_B)) = ''xxx''"
proof -
  have p: "promises (world_of example_group_A) = 1"
    using invoke_started[OF example_group_A_eval(1)] by (simp add: started_def example_world_eval)
  show "invoke ''s1'' False (OpNumber ''B'' no_options) (world_of example_group_A)
     = (''field_xx'', 1, world_of example_group_B)"
    "fst (nanoid (world_of example_group_B)) = ''xxx''"
    by (simp_all add: example_group_B_def example_group_A_eval(2,3)[unfolded world_of_def]
      p[unfolded world_of_def] world_of_def number_def
      renderFieldInForm_def prims no_options_def Let_def example_ids_def)
qed

text \<open>
  C5. A group whose builder returns the operations \<open>opA\<close> and \<open>opB\<close>, in a world with
  no other group running and with fresh identifiers: when the field of \<open>opB\<close> resolves
  first the group is still waiting; when the field of \<open>opA\<close> resolves afterwards the
  group returns the two results in the order of the builder, its event is emitted
  exactly once and exactly one \<open>groupComplete\<close> message is sent.
\<close>

theorem group_builder_order:
  assumes a: "invoke sid False opA w = (fidA, pA, wA)"
    and b: "invoke sid False opB wA = (fidB, pB, wB)"
    and g: "group sid [opA, opB] w = (gp, w1)"
    and k: "gkey = sid @ '':'' @ ''group_'' @ fst (nanoid wB)"
    and fresh: "listeners w (eventId sid fidA ''resolve'') = []"
               "listeners w (eventId sid fidB ''resolve'') = []"
               "listeners w gkey = []"
    and ids: "fidA \<noteq> fidB"
             "gkey \<notin> {eventId sid fidA ''resolve'', eventId sid fidA ''patch'',
                       eventId sid fidB ''resolve'', eventId sid fidB ''patch''}"
    and idle: "watchers w = []"
    and unsettled: "settled w pA = None" "settled w pB = None" "settled w gp = None"
    and ok: "validator_of opA vA = JBool True" "validator_of opB vB = JBool True"
  shows "let w2 = settle_groups (on_message (msg_resolve sid fidB vB) w1);
             w3 = settle_groups (on_message (msg_resolve sid fidA vA) w2);
             results = JArr [continuation_of opA vA, continuation_of opB vB]
         in settled w2 gp = None \<and>
            settled w3 gp = Some results \<and>
            filter (emitted_on gkey) (trace w3)
              = filter (emitted_on gkey) (trace w) @ [Emit gkey results] \<and>
            filter (is_action ''groupComplete'') (sent w3)
              = filter (is_action ''groupComplete'') (sent w) @ [msg_groupComplete sid]"
proof -
  let ?kA = "eventId sid fidA ''resolve''" and ?kB = "eventId sid fidB ''resolve''"
  let ?qA = "eventId sid fidA ''patch''" and ?qB = "eventId sid fidB ''patch''"
  let ?cA = "callback_of False sid fidA opA" and ?cB = "callback_of False sid fidB opB"
  let ?results = "JArr [continuation_of opA vA, continuation_of opB vB]"
  note sA = invoke_started[OF a] and sB = invoke_started[OF b]
  note G = group_two_fields[OF a b g k]
  have pd: "pA \<noteq> pB" "pA \<noteq> gp" "pB \<noteq> gp"
    using G(1-3) by simp_all
  have kd: "?kA \<noteq> ?kB" "?kA \<noteq> ?qB" "?kB \<noteq> ?qA" "?kB \<noteq> ?kA"
    "gkey \<noteq> ?kA" "gkey \<noteq> ?kB" "gkey \<noteq> ?qA" "gkey \<noteq> ?qB"
    using ids eventId_resolve_patch by (simp_all add: eventId_resolve_inj)
  \<comment> \<open>the listeners when the group has been set up\<close>
  have "listeners wA ?kA = [Waiter ?cA pA (continuation_of opA)]"
    using started_listeners_resolve[OF sA] fresh(1) by simp
  then have lA: "listeners w1 ?kA = [Waiter ?cA pA (continuation_of opA)]"
    using started_listeners_other[OF sB kd(1,2)] G(7) kd(5) by simp
  have "listeners wA ?kB = []"
    using started_listeners_other[OF sA kd(4,3)] fresh(2) by simp
  then have lB: "listeners w1 ?kB = [Waiter ?cB pB (continuation_of opB)]"
    using started_listeners_resolve[OF sB] G(7) kd(6) by simp
  have "listeners wB gkey = []"
    using started_listeners_other[OF sB kd(6,8)] started_listeners_other[OF sA kd(5,7)] fresh(3)
    by simp
  then have lG: "listeners w1 gkey = [Waiter (CbGroupComplete sid) gp (\<lambda>v. v)]"
    using G(7) by simp
  obtain rA rB where tr1: "is_action ''render'' rA" "is_action ''render'' rB"
    "trace w1 = trace w
             @ Send rA # map On (map (\<lambda>l. eventId sid fidA ''patch'') (patchers_of sid fidA opA))
             @ [SetValidator fidA, Once (eventId sid fidA ''resolve'')]
             @ Send rB # map On (map (\<lambda>l. eventId sid fidB ''patch'') (patchers_of sid fidB opB))
             @ [SetValidator fidB, Once (eventId sid fidB ''resolve''), Once gkey]"
    using G(8) by blast
  \<comment> \<open>the second field resolves first\<close>
  let ?x2 = "on_message (msg_resolve sid fidB vB) w1"
  have fvB: "fieldValidators w1 fidB = Some (validator_of opB)"
    using G(4) by simp
  have uB: "settled w1 pB = None"
    using G(5) unsettled(2) by simp
  note r2 = accepted_resolve[OF fvB ok(2) lB uB]
  have st2: "settled ?x2 pA = None" "settled ?x2 pB = Some (continuation_of opB vB)"
    "settled ?x2 gp = None"
    using r2(1) G(5) unsettled pd by simp_all
  have wt2: "watchers ?x2 = [(gkey, [pA, pB])]"
    using r2(4) G(6) idle by simp
  have x2: "settle_groups ?x2 = ?x2"
    using settle_groups_pending[OF wt2 _ st2(1)] by simp
  have lA2: "listeners ?x2 ?kA = [Waiter ?cA pA (continuation_of opA)]"
    using accept_listeners_other[OF r2(6) kd(1,2)] lA by simp
  have lG2: "listeners ?x2 gkey = [Waiter (CbGroupComplete sid) gp (\<lambda>v. v)]"
    using accept_listeners_other[OF r2(6) kd(6,8)] lG by simp
  have fvA2: "fieldValidators ?x2 fidA = Some (validator_of opA)"
    using r2(2) G(4) ids(1) by simp
  \<comment> \<open>then the first field\<close>
  let ?x3 = "on_message (msg_resolve sid fidA vA) ?x2"
  note r3 = accepted_resolve[OF fvA2 ok(1) lA2 st2(1)]
  have st3: "settled ?x3 pA = Some (continuation_of opA vA)"
    "settled ?x3 pB = Some (continuation_of opB vB)" "settled ?x3 gp = None"
    using r3(1) st2 pd by simp_all
  have wt3: "watchers ?x3 = [(gkey, [pA, pB])]"
    using r3(4) wt2 by simp
  have lG3: "listeners ?x3 gkey = [Waiter (CbGroupComplete sid) gp (\<lambda>v. v)]"
    using accept_listeners_other[OF r3(6) kd(5,7)] lG2 by simp
  have x3: "settle_groups ?x3 = emit gkey ?results (?x3\<lparr>watchers := []\<rparr>)"
    using settle_groups_complete[OF wt3 st3(1,2)] .
  have e: "settled (settle_groups ?x3) gp = Some ?results"
    "trace (settle_groups ?x3) = trace ?x3 @ [Emit gkey ?results, Send (msg_groupComplete sid),
        Resolve gp ?results]"
    using emit_waiter_fields(1,5)[of "?x3\<lparr>watchers := []\<rparr>" gkey "CbGroupComplete sid" gp "\<lambda>v. v" ?results]
      lG3 st3(3) x3 by simp_all
  have tr3: "trace (settle_groups ?x3) =
      trace w1 @ [Send (msg_warn (JBool True) (JStr fidB) (JStr sid)), DeleteValidator (JStr fidB),
                  Emit ?kB vB] @ callback_effects ?cB @ [Resolve pB vB]
        @ [Send (msg_warn (JBool True) (JStr fidA) (JStr sid)), DeleteValidator (JStr fidA),
                  Emit ?kA vA] @ callback_effects ?cA @ [Resolve pA vA]
        @ [Emit gkey ?results, Send (msg_groupComplete sid), Resolve gp ?results]"
    using e(2) r3(3) r2(3) by simp
  have emits: "filter (emitted_on gkey) (trace (settle_groups ?x3))
      = filter (emitted_on gkey) (trace w) @ [Emit gkey ?results]"
    using kd(5,6) by (simp add: tr3 tr1(3) filter_emitted_on_map_On filter_emitted_callback)
  have ng: "\<not> is_action ''groupComplete'' rA" "\<not> is_action ''groupComplete'' rB"
    using tr1(1,2) by (simp_all add: is_action_def)
  have msgs: "filter (is_action ''groupComplete'') (sent (settle_groups ?x3))
      = filter (is_action ''groupComplete'') (sent w) @ [msg_groupComplete sid]"
    using ng
    by (simp add: sent_def tr3 tr1(3) sent_of_append sent_of_map_On callback_of_groupComplete
        is_groupComplete_msgs)
  show ?thesis
    using st2(3) e(1) emits msgs by (simp add: x2 Let_def)
qed


theorem group_builder_order_witness:
  "invoke ''s1'' False (OpText ''A'' no_options) example_world = (''field_x'', 0, world_of example_group_A) \<and>
   invoke ''s1'' False (OpNumber ''B'' no_options) (world_of example_group_A)
     = (''field_xx'', 1, world_of example_group_B) \<and>
   group ''s1'' [OpText ''A'' no_options, OpNumber ''B'' no_options] example_world
     = (fst example_group, snd example_group) \<and>
   ''s1:group_xxx'' = ''s1'' @ '':'' @ ''group_'' @ fst (nanoid (world_of example_group_B)) \<and>
   validator_of (OpText ''A'' no_options) (JStr ''a'') = JBool True \<and>
   validator_of (OpNumber ''B'' no_options) (JNum 5) = JBool True \<and>
   settled (settle_groups (on_message (msg_resolve ''s1'' ''field_xx'' (JNum 5)) (snd example_group)))
     (fst example_group) = None \<and>
   settled (settle_groups (on_message (msg_resolve ''s1'' ''field_x'' (JStr ''a''))
      (settle_groups (on_message (msg_resolve ''s1'' ''field_xx'' (JNum 5)) (snd example_group)))))
     (fst example_group) = Some (JArr [JStr ''a'', JNum 5])"
proof -
  have g: "group ''s1'' [OpText ''A'' no_options, OpNumber ''B'' no_options] example_world
     = (fst example_group, snd example_group)"
    by (simp add: example_group_def)
  have k: "''s1:group_xxx'' = ''s1'' @ '':'' @ ''group_'' @ fst (nanoid (world_of example_group_B))"
    by (simp add: example_group_B_eval)
  have ids: "''field_x'' \<noteq> ''field_xx''"
    "''s1:group_xxx'' \<notin> {eventId ''s1'' ''field_x'' ''resolve'', eventId ''s1'' ''field_x'' ''patch'',
                       eventId ''s1'' ''field_xx'' ''resolve'', eventId ''s1'' ''field_xx'' ''patch''}"
    by (simp_all add: eventId_def)
  have ok: "validator_of (OpText ''A'' no_options) (JStr ''a'') = JBool True"
    "validator_of (OpNumber ''B'' no_options) (JNum 5) = JBool True"
    by (simp_all add: validator_of_def or_default_def no_options_def text_defaultCustomValidator_def
        number_defaultCustomValidator_def)
  show ?thesis
    using group_builder_order[OF example_group_A_eval(1) example_group_B_eval(1) g k
        example_world_eval(1) example_world_eval(1) example_world_eval(1) ids
        example_world_eval(3) example_world_eval(2) example_world_eval(2) example_world_eval(2) ok]
      example_group_A_eval(1) example_group_B_eval(1) g k ok
    by (simp add: Let_def)
qed

section \<open>The listeners of reachable worlds\<close>

text \<open>
  The engine starts disciplined, and every step of it (an inbound message, a field
  operation, a group, the continuation of a group) keeps the discipline: no step adds a
  listener other than a waiter outside a patch key.
\<close>

lemma disciplined_resolve_key:
  assumes "listeners_disciplined w"
  shows "list_all is_waiter (listeners w (eventId sid fid ''resolve''))"
  using assms eventId_resolve_patch unfolding listeners_disciplined_def list_all_iff by blast

lemma disciplined_subset:
  assumes "listeners_disciplined w" and "\<And>key. set (listeners w' key) \<subseteq> set (listeners w key)"
  shows "listeners_disciplined w'"
  using assms unfolding listeners_disciplined_def by blast

lemma remove_waiter_subset: "set (remove_waiter p ls) \<subseteq> set ls"
  by (induction p ls rule: remove_waiter.induct) auto

lemma fire_listeners_subset: "set (listeners (fire key x l w) k') \<subseteq> set (listeners w k')"
proof (cases l)
  case (Waiter cb p k)
  then show ?thesis
    using remove_waiter_subset[of p "listeners w key"]
    by (cases cb) (auto simp: prims split: option.splits)
qed (simp_all add: prims split: option.splits)

lemma run_listeners_subset:
  "set (listeners (run_listeners key x ls w) k') \<subseteq> set (listeners w k')"
proof (induction ls arbitrary: w)
  case Nil
  then show ?case by simp
next
  case (Cons l ls)
  have "set (listeners (run_listeners key x ls (fire key x l w)) k')
          \<subseteq> set (listeners (fire key x l w) k')"
    using Cons .
  then show ?case using fire_listeners_subset[of key x l w k'] by auto
qed

lemma emit_listeners_subset: "set (listeners (emit key x w) k') \<subseteq> set (listeners w k')"
  using run_listeners_subset[of key x "listeners w key" "log (Emit key x) w" k']
  by (simp add: emit_def log_def)

lemma emit_on_listeners_subset: "set (listeners (emit_on name x w) k') \<subseteq> set (listeners w k')"
  by (cases name) (simp_all add: emit_on_def emit_listeners_subset log_def)

lemma on_message_listeners_subset:
  "set (listeners (on_message m w) k') \<subseteq> set (listeners w k')"
proof -
  have a: "set (listeners (emit_on name x (fieldValidators_delete f w0)) k') \<subseteq> set (listeners w0 k')"
    for name x f w0
    using emit_on_listeners_subset[of name x "fieldValidators_delete f w0" k']
    by (simp add: prims split: jsvalue.splits)
  have b: "set (listeners (emit_on name x (fieldValidators_delete f (ws_send m' w0))) k')
             \<subseteq> set (listeners w0 k')" for name x f m' w0
    using emit_on_listeners_subset[of name x "fieldValidators_delete f (ws_send m' w0)" k']
    by (simp add: prims split: jsvalue.splits)
  have r: "set (listeners (on_resolve m w0) k') \<subseteq> set (listeners w0 k')" for w0
    using a b by (simp add: on_resolve_def Let_def ws_send_def log_def split: option.splits)
  have s: "set (listeners (ws_send m' (emit key x w)) k') \<subseteq> set (listeners w k')" for m' key x
    using emit_listeners_subset[of key x w k'] by (simp add: prims)
  show ?thesis
    using r[of w] s emit_on_listeners_subset[of _ _ w k']
    by (simp add: on_message_def Let_def)
qed

lemma disciplined_on_message:
  "listeners_disciplined w \<Longrightarrow> listeners_disciplined (on_message m w)"
  by (rule disciplined_subset) (auto intro: on_message_listeners_subset[THEN subsetD])

lemma disciplined_internalStack: "listeners_disciplined (internalStack ids lookup arithmetic)"
  by (simp add: listeners_disciplined_def internalStack_def prims)

lemma patchers_not_waiters:
  "l \<in> set (patchers_of sid fid operation) \<Longrightarrow> \<not> is_waiter l"
  by (cases operation) (auto split: if_splits)

lemma disciplined_started:
  assumes "listeners_disciplined w" and "started sid st operation w fid p w1"
  shows "listeners_disciplined w1"
  using assms unfolding listeners_disciplined_def started_def
  by (auto split: if_splits)

lemma disciplined_invoke:
  assumes "listeners_disciplined w"
  shows "listeners_disciplined (world_of (invoke sid st operation w))"
  using disciplined_started[OF assms invoke_started_of] .

lemma disciplined_invoke_all:
  assumes "listeners_disciplined w"
  shows "listeners_disciplined (snd (invoke_all sid st ops w))"
  using assms
proof (induction ops arbitrary: w)
  case Nil
  then show ?case by simp
next
  case (Cons operation ops)
  have "listeners_disciplined (world_of (invoke sid st operation w))"
    using Cons.prems by (rule disciplined_invoke)
  from Cons.IH[OF this] show ?case
    by (auto simp: world_of_def split: prod.splits)
qed

lemma disciplined_group:
  assumes "listeners_disciplined w"
  shows "listeners_disciplined (snd (group sid ops w))"
proof -
  have "listeners_disciplined (snd (invoke_all sid False ops w))"
    using assms by (rule disciplined_invoke_all)
  moreover have "set (listeners (snd (group sid ops w)) key)
        \<subseteq> set (listeners (snd (invoke_all sid False ops w)) key)
          \<union> {Waiter (CbGroupComplete sid) (promises (snd (invoke_all sid False ops w))) (\<lambda>v. v)}" for key
    by (auto simp: group_def prims Let_def split: prod.splits if_splits)
  ultimately show ?thesis
    unfolding listeners_disciplined_def by fastforce
qed

lemma disciplined_settle_groups:
  assumes "listeners_disciplined w"
  shows "listeners_disciplined (settle_groups w)"
proof -
  have step: "set (listeners (run_watcher g w0) k') \<subseteq> set (listeners w0 k')" for g w0 k'
    using emit_listeners_subset[of "fst g" _ "w0\<lparr>watchers := remove1 g (watchers w0)\<rparr>" k']
    by (simp add: run_watcher_def split: option.splits)
  have "set (listeners (run_watchers gs w0) k') \<subseteq> set (listeners w0 k')" for gs w0 k'
  proof (induction gs arbitrary: w0)
    case Nil
    then show ?case by simp
  next
    case (Cons g gs)
    show ?case using Cons[of "run_watcher g w0"] step[of g w0 k'] by auto
  qed
  then show ?thesis
    using assms unfolding settle_groups_def by (intro disciplined_subset[OF assms]) auto
qed

end
